theory Spec2Isabelle
  imports Main "HOL-Library.Sublist" "HOL-Library.AList"
begin

section \<open>Go strings, bytes and runes\<close>

text \<open>
  A Go string is a sequence of bytes, here a \<^typ>\<open>string\<close> (a list of 8-bit characters);
  \<open>len(s)\<close> is its number of bytes. A \<open>rune\<close> is a Unicode code point. Go's \<open>int\<close> is
  taken as the 64-bit signed integer of the usual platforms: values are of type
  \<^typ>\<open>int\<close>, and the wrap-around is written out where the code does arithmetic on a
  parsed number.

  The functions of this section are Go's standard library (packages \<open>utf8\<close>,
  \<open>unicode\<close>, \<open>strings\<close>), modelled from their documented behaviour. A continuation
  byte \<open>b\<close> lies in \<open>0x80..0xBF\<close>, so the mask \<open>b & 0x3F\<close> of the library is written
  \<open>b - 0x80\<close>, and likewise for the masks of the leading bytes.
\<close>

type_synonym rune = nat

abbreviation byte :: "char \<Rightarrow> nat" where
  "byte \<equiv> of_char"

definition RuneError :: rune where
  "RuneError = 0xFFFD"

text \<open>The number of bytes announced by a leading byte; 0 for a byte that starts no rune.\<close>

definition runeSize :: "nat \<Rightarrow> nat" where
  "runeSize b0 =
     (if b0 < 0x80 then 1
      else if b0 < 0xC2 then 0
      else if b0 < 0xE0 then 2
      else if b0 < 0xF0 then 3
      else if b0 < 0xF5 then 4
      else 0)"

text \<open>The range accepted for the second byte (overlong forms and surrogates are refused).\<close>

definition acceptLo :: "nat \<Rightarrow> nat" where
  "acceptLo b0 = (if b0 = 0xE0 then 0xA0 else if b0 = 0xF0 then 0x90 else 0x80)"

definition acceptHi :: "nat \<Rightarrow> nat" where
  "acceptHi b0 = (if b0 = 0xED then 0x9F else if b0 = 0xF4 then 0x8F else 0xBF)"

text \<open>\<open>utf8.DecodeRuneInString\<close>: the first rune of a string and its width in bytes. An
  invalid or truncated encoding gives \<open>(RuneError, 1)\<close>.\<close>

fun utf8_DecodeRuneInString :: "string \<Rightarrow> rune \<times> nat" where
  "utf8_DecodeRuneInString [] = (RuneError, 0)"
| "utf8_DecodeRuneInString (c0 # cs) =
     (let s0 = byte c0; sz = runeSize s0 in
      if sz = 1 then (s0, 1)
      else if sz = 0 then (RuneError, 1)
      else if length (c0 # cs) < sz then (RuneError, 1)
      else
        let s1 = byte (cs ! 0) in
        if s1 < acceptLo s0 \<or> acceptHi s0 < s1 then (RuneError, 1)
        else if sz \<le> 2 then ((s0 - 0xC0) * 64 + (s1 - 0x80), 2)
        else
          let s2 = byte (cs ! 1) in
          if s2 < 0x80 \<or> 0xBF < s2 then (RuneError, 1)
          else if sz \<le> 3 then ((s0 - 0xE0) * 4096 + (s1 - 0x80) * 64 + (s2 - 0x80), 3)
          else
            let s3 = byte (cs ! 2) in
            if s3 < 0x80 \<or> 0xBF < s3 then (RuneError, 1)
            else ((s0 - 0xF0) * 262144 + (s1 - 0x80) * 4096 + (s2 - 0x80) * 64 + (s3 - 0x80), 4))"

declare utf8_DecodeRuneInString.simps(2) [simp del]

lemmas decode_rune = utf8_DecodeRuneInString.simps(2)

text \<open>\<open>for _, char := range s\<close>: the runes of a string in order, each with the bytes it
  was decoded from. An invalid byte is one step of its own, with rune \<open>RuneError\<close>.\<close>

fun decode :: "string \<Rightarrow> (rune \<times> string) list" where
  "decode [] = []"
| "decode (c # cs) =
     (let (r, w) = utf8_DecodeRuneInString (c # cs)
      in (r, take w (c # cs)) # decode (drop (w - 1) cs))"

definition runes :: "string \<Rightarrow> rune list" where
  "runes s = map fst (decode s)"

text \<open>\<open>string(r)\<close> for a rune \<open>r\<close>: its UTF-8 encoding; a surrogate or a value past
  \<open>0x10FFFF\<close> is encoded as \<open>RuneError\<close>.\<close>

definition utf8_EncodeRune :: "rune \<Rightarrow> string" where
  "utf8_EncodeRune r =
     (if r \<le> 0x7F then [char_of r]
      else if r \<le> 0x7FF then [char_of (0xC0 + r div 64), char_of (0x80 + r mod 64)]
      else if 0x10FFFF < r \<or> (0xD800 \<le> r \<and> r \<le> 0xDFFF) then [CHR 0xEF, CHR 0xBF, CHR 0xBD]
      else if r \<le> 0xFFFF then
        [char_of (0xE0 + r div 4096), char_of (0x80 + r div 64 mod 64), char_of (0x80 + r mod 64)]
      else
        [char_of (0xF0 + r div 262144), char_of (0x80 + r div 4096 mod 64),
         char_of (0x80 + r div 64 mod 64), char_of (0x80 + r mod 64)])"

text \<open>\<open>unicode.ToLower\<close>. Its ASCII branch is written out; past ASCII the library looks
  the rune up in its case tables, which are the parameter \<open>caseTable\<close>.\<close>

definition unicode_ToLower :: "(rune \<Rightarrow> rune) \<Rightarrow> rune \<Rightarrow> rune" where
  "unicode_ToLower caseTable r =
     (if r \<le> 0x7F then (if 0x41 \<le> r \<and> r \<le> 0x5A then r + 0x20 else r)
      else caseTable r)"

text \<open>\<open>strings.Map\<close>: every rune of the string mapped and encoded again.\<close>

definition strings_Map :: "(rune \<Rightarrow> rune) \<Rightarrow> string \<Rightarrow> string" where
  "strings_Map mapping s = concat (map (\<lambda>r. utf8_EncodeRune (mapping r)) (runes s))"

definition lowerByte :: "char \<Rightarrow> char" where
  "lowerByte c = (if 0x41 \<le> byte c \<and> byte c \<le> 0x5A then char_of (byte c + 0x20) else c)"

text \<open>\<open>strings.ToLower\<close>: byte by byte on an ASCII-only string, \<open>Map(unicode.ToLower, s)\<close>
  otherwise.\<close>

definition strings_ToLower :: "(rune \<Rightarrow> rune) \<Rightarrow> string \<Rightarrow> string" where
  "strings_ToLower caseTable s =
     (if list_all (\<lambda>c. byte c < 0x80) s then map lowerByte s
      else strings_Map (unicode_ToLower caseTable) s)"

text \<open>\<open>strings.Contains(s, substr)\<close>.\<close>

fun strings_Contains :: "string \<Rightarrow> string \<Rightarrow> bool" where
  "strings_Contains [] substr = (substr = [])"
| "strings_Contains (c # cs) substr = (prefix substr (c # cs) \<or> strings_Contains cs substr)"

text \<open>\<open>unicode.IsSpace\<close>: the runes of Unicode's White\_Space property.\<close>

definition unicode_IsSpace :: "rune \<Rightarrow> bool" where
  "unicode_IsSpace r =
     ((0x09 \<le> r \<and> r \<le> 0x0D) \<or> r = 0x20 \<or> r = 0x85 \<or> r = 0xA0 \<or> r = 0x1680
      \<or> (0x2000 \<le> r \<and> r \<le> 0x200A) \<or> r = 0x2028 \<or> r = 0x2029 \<or> r = 0x202F
      \<or> r = 0x205F \<or> r = 0x3000)"

text \<open>\<open>strings.TrimSpace\<close>: the string without its leading and trailing white space.\<close>

definition strings_TrimSpace :: "string \<Rightarrow> string" where
  "strings_TrimSpace s =
     (let sp = (\<lambda>(r, bs). unicode_IsSpace r)
      in concat (map snd (rev (dropWhile sp (rev (dropWhile sp (decode s)))))))"

text \<open>\<open>strings.Fields\<close>: the maximal runs of runes that are not white space. The second
  argument of the loop is the field being read, if any.\<close>

fun fieldsLoop :: "(rune \<times> string) list \<Rightarrow> string option \<Rightarrow> string list" where
  "fieldsLoop [] None = []"
| "fieldsLoop [] (Some f) = [f]"
| "fieldsLoop ((r, bs) # rest) None =
     (if unicode_IsSpace r then fieldsLoop rest None else fieldsLoop rest (Some bs))"
| "fieldsLoop ((r, bs) # rest) (Some f) =
     (if unicode_IsSpace r then f # fieldsLoop rest None else fieldsLoop rest (Some (f @ bs)))"

definition strings_Fields :: "string \<Rightarrow> string list" where
  "strings_Fields s = fieldsLoop (decode s) None"

section \<open>Data model\<close>

text \<open>\<open>StringProperties\<close> and \<open>StringData\<close> of \<open>main.go\<close>. A Go map is an association
  list with one entry per key (\<open>m[k] = v\<close> is \<^const>\<open>AList.update\<close>, \<open>delete(m, k)\<close> is
  \<^const>\<open>AList.delete\<close>, a lookup is \<^const>\<open>map_of\<close>, \<open>len(m)\<close> is the length); Go leaves the
  order of enumeration open, the list's order stands for one such order.\<close>

record StringProperties =
  Length :: int
  IsPalindrome :: bool
  UniqueCharacters :: int
  WordCount :: int
  SHA256Hash :: string
  CharacterFrequencyMap :: "(string \<times> int) list"

record StringData =
  ID :: string
  Value :: string
  Properties :: StringProperties
  CreatedAt :: nat

record CreateStringRequest =
  ReqValue :: string

section \<open>Text analyzer\<close>

text \<open>The regular expression \<open>[^a-zA-Z0-9]\<close> of \<open>isPalindrome\<close> matches one rune that is
  not an ASCII letter or digit (an invalid byte counts as \<open>RuneError\<close>);
  \<open>ReplaceAllString(s, "")\<close> deletes every match.\<close>

definition isAlnum :: "rune \<Rightarrow> bool" where
  "isAlnum r = ((0x61 \<le> r \<and> r \<le> 0x7A) \<or> (0x41 \<le> r \<and> r \<le> 0x5A) \<or> (0x30 \<le> r \<and> r \<le> 0x39))"

definition removeNonAlnum :: "string \<Rightarrow> string" where
  "removeNonAlnum s = concat (map (\<lambda>(r, bs). if isAlnum r then bs else []) (decode s))"

text \<open>The loop of \<open>isPalindrome\<close>, from index \<open>i\<close>: \<open>cleaned[i]\<close> against
  \<open>cleaned[length-1-i]\<close> while \<open>i < length/2\<close>. Both indices are in range there.\<close>

function palindromeLoop :: "string \<Rightarrow> nat \<Rightarrow> bool" where
  "palindromeLoop cleaned i =
     (if i < length cleaned div 2 then
        (if cleaned ! i \<noteq> cleaned ! (length cleaned - 1 - i) then False
         else palindromeLoop cleaned (Suc i))
      else True)"
  by pat_completeness auto
termination
  by (relation "measure (\<lambda>(cleaned, i). length cleaned div 2 - i)") auto

declare palindromeLoop.simps [simp del]

definition isPalindrome :: "(rune \<Rightarrow> rune) \<Rightarrow> string \<Rightarrow> bool" where
  "isPalindrome caseTable s =
     (let cleaned = strings_ToLower caseTable (removeNonAlnum s)
      in palindromeLoop cleaned 0)"

definition countUniqueCharacters :: "string \<Rightarrow> int" where
  "countUniqueCharacters s =
     (let charSet = fold (\<lambda>char charSet. AList.update char True charSet) (runes s) []
      in int (length charSet))"

definition countWords :: "string \<Rightarrow> int" where
  "countWords s =
     (let s' = strings_TrimSpace s
      in if s' = [] then 0 else int (length (strings_Fields s')))"

text \<open>\<open>frequency[k]\<close> of a key that is absent reads as 0.\<close>

definition getCount :: "(string \<times> int) list \<Rightarrow> string \<Rightarrow> int" where
  "getCount frequency k = (case map_of frequency k of None \<Rightarrow> 0 | Some n \<Rightarrow> n)"

definition getCharacterFrequency :: "string \<Rightarrow> (string \<times> int) list" where
  "getCharacterFrequency s =
     fold (\<lambda>char frequency.
             AList.update (utf8_EncodeRune char) (getCount frequency (utf8_EncodeRune char) + 1)
               frequency)
       (runes s) []"

text \<open>\<open>analyzeString\<close>. The SHA-256 digest in hexadecimal (\<open>computeSHA256\<close>, from
  \<open>crypto/sha256\<close> and \<open>encoding/hex\<close>) is the parameter \<open>computeSHA256\<close>.\<close>

definition analyzeString ::
  "(string \<Rightarrow> string) \<Rightarrow> (rune \<Rightarrow> rune) \<Rightarrow> string \<Rightarrow> StringProperties" where
  "analyzeString computeSHA256 caseTable v =
     (let hash = computeSHA256 v in
      \<lparr> Length = int (length v),
        IsPalindrome = isPalindrome caseTable v,
        UniqueCharacters = countUniqueCharacters v,
        WordCount = countWords v,
        SHA256Hash = hash,
        CharacterFrequencyMap = getCharacterFrequency v \<rparr>)"

section \<open>Numbers and regular expressions of the natural-language parser\<close>

text \<open>\<open>strconv.Atoi\<close>, which is \<open>ParseInt(s, 10, 0)\<close>: an optional sign and decimal
  digits. The digits are read left to right into an unsigned 64-bit number; a number
  that does not fit is reported with \<open>ErrRange\<close> and the nearest bound is returned.\<close>

datatype NumError = ErrSyntax | ErrRange

definition isDigit :: "char \<Rightarrow> bool" where
  "isDigit c = (0x30 \<le> byte c \<and> byte c \<le> 0x39)"

definition maxUint64 :: nat where
  "maxUint64 = 2 ^ 64 - 1"

fun parseUintLoop :: "string \<Rightarrow> nat \<Rightarrow> nat \<times> NumError option" where
  "parseUintLoop [] n = (n, None)"
| "parseUintLoop (c # cs) n =
     (if \<not> isDigit c then (0, Some ErrSyntax)
      else if n \<ge> maxUint64 div 10 + 1 then (maxUint64, Some ErrRange)
      else
        let n1 = n * 10 + (byte c - 0x30) in
        if n1 > maxUint64 then (maxUint64, Some ErrRange)
        else parseUintLoop cs n1)"

definition strconv_ParseUint :: "string \<Rightarrow> nat \<times> NumError option" where
  "strconv_ParseUint s = (if s = [] then (0, Some ErrSyntax) else parseUintLoop s 0)"

definition strconv_Atoi :: "string \<Rightarrow> int \<times> NumError option" where
  "strconv_Atoi s =
     (if s = [] then (0, Some ErrSyntax)
      else
        let neg = (hd s = CHR ''-'');
            s' = (if hd s = CHR ''+'' \<or> hd s = CHR ''-'' then tl s else s);
            (un, err) = strconv_ParseUint s'
        in if err = Some ErrSyntax then (0, err)
           else if \<not> neg \<and> un \<ge> 2 ^ 63 then (2 ^ 63 - 1, Some ErrRange)
           else if neg \<and> un > 2 ^ 63 then (- (2 ^ 63), Some ErrRange)
           else (if neg then - int un else int un, None))"

text \<open>\<open>strconv.ParseBool\<close>; \<open>None\<close> is its error.\<close>

definition strconv_ParseBool :: "string \<Rightarrow> bool option" where
  "strconv_ParseBool s =
     (if s \<in> set [''1'', ''t'', ''T'', ''TRUE'', ''true'', ''True''] then Some True
      else if s \<in> set [''0'', ''f'', ''F'', ''FALSE'', ''false'', ''False''] then Some False
      else None)"

text \<open>Arithmetic on Go's \<open>int\<close> wraps around in 64 bits.\<close>

definition int64 :: "int \<Rightarrow> int" where
  "int64 x = (x + 2 ^ 63) mod 2 ^ 64 - 2 ^ 63"

text \<open>A compiled regular expression is the function that matches it at the start of a
  string: the list \<open>[match, group 1]\<close>, or \<open>[]\<close> where it does not match there. The
  alternatives are tried in Go's order (leftmost first, an optional part and a
  repetition as long as possible).

  \<open>lit p\<close> reads the literal \<open>p\<close> and returns what is left of the string.\<close>

definition lit :: "string \<Rightarrow> string \<Rightarrow> string list" where
  "lit p s = (if prefix p s then [drop (length p) s] else [])"

text \<open>\<open>longer than (\d+)\<close> and \<open>shorter than (\d+)\<close>; \<open>\d\<close> is an ASCII digit.\<close>

definition thanRegex :: "string \<Rightarrow> string \<Rightarrow> string list" where
  "thanRegex kw s =
     (if prefix kw s then
        (let ds = takeWhile isDigit (drop (length kw) s)
         in if ds = [] then [] else [kw @ ds, ds])
      else [])"

definition longerThanRegex :: "string \<Rightarrow> string list" where
  "longerThanRegex = thanRegex ''longer than ''"

definition shorterThanRegex :: "string \<Rightarrow> string list" where
  "shorterThanRegex = thanRegex ''shorter than ''"

text \<open>\<open>contain(?:s|ing)? (?:the )?(?:letter|character) ([a-z])\<close>.\<close>

definition lowerLetter :: "string \<Rightarrow> (string \<times> char) list" where
  "lowerLetter s =
     (case s of [] \<Rightarrow> []
      | c # rest \<Rightarrow> if 0x61 \<le> byte c \<and> byte c \<le> 0x7A then [(rest, c)] else [])"

text \<open>The ways the expression matches at the start of \<open>s\<close>, in the order Go tries them:
  what is left of the string after the match, and the letter of group 1.\<close>

definition containsMatches :: "string \<Rightarrow> (string \<times> char) list" where
  "containsMatches s =
     [(rest, c).
        r0 \<leftarrow> lit ''contain'' s,
        r1 \<leftarrow> lit ''s'' r0 @ lit ''ing'' r0 @ [r0],
        r2 \<leftarrow> lit '' '' r1,
        r3 \<leftarrow> lit ''the '' r2 @ [r2],
        r4 \<leftarrow> lit ''letter'' r3 @ lit ''character'' r3,
        r5 \<leftarrow> lit '' '' r4,
        (rest, c) \<leftarrow> lowerLetter r5]"

definition containsRegex :: "string \<Rightarrow> string list" where
  "containsRegex s =
     (case containsMatches s of
        [] \<Rightarrow> []
      | (rest, c) # _ \<Rightarrow> [take (length s - length rest) s, [c]])"

text \<open>\<open>re.FindStringSubmatch(s)\<close>: the leftmost match, \<open>[]\<close> (Go's \<open>nil\<close>) when there is
  none.\<close>

fun FindStringSubmatch :: "(string \<Rightarrow> string list) \<Rightarrow> string \<Rightarrow> string list" where
  "FindStringSubmatch re [] = re []"
| "FindStringSubmatch re (c # cs) =
     (if re (c # cs) \<noteq> [] then re (c # cs) else FindStringSubmatch re cs)"

section \<open>Natural-language filter translator\<close>

text \<open>The values of the \<open>map[string]interface{}\<close> that holds the parsed filters.\<close>

datatype iface = BoolVal bool | IntVal int | StringVal string

type_synonym filters = "(string \<times> iface) list"

text \<open>The statements of \<open>parseNaturalLanguageQuery\<close>, one function for each check of the
  lower-cased query; each returns the filter map as the statement leaves it.\<close>

definition checkPalindrome :: "string \<Rightarrow> filters \<Rightarrow> filters" where
  "checkPalindrome lowerQuery filters =
     (if strings_Contains lowerQuery ''palindrom''
      then AList.update ''is_palindrome'' (BoolVal True) filters
      else filters)"

definition checkWordCount :: "string \<Rightarrow> filters \<Rightarrow> filters" where
  "checkWordCount lowerQuery filters =
     (if strings_Contains lowerQuery ''single word''
      then AList.update ''word_count'' (IntVal 1) filters
      else if strings_Contains lowerQuery ''two word''
      then AList.update ''word_count'' (IntVal 2) filters
      else filters)"

definition checkLongerThan :: "string \<Rightarrow> filters \<Rightarrow> filters" where
  "checkLongerThan lowerQuery filters =
     (let matches = FindStringSubmatch longerThanRegex lowerQuery in
      if length matches > 1 then
        (let len = fst (strconv_Atoi (matches ! 1))
         in AList.update ''min_length'' (IntVal (int64 (len + 1))) filters)
      else filters)"

definition checkShorterThan :: "string \<Rightarrow> filters \<Rightarrow> filters" where
  "checkShorterThan lowerQuery filters =
     (let matches = FindStringSubmatch shorterThanRegex lowerQuery in
      if length matches > 1 then
        (let len = fst (strconv_Atoi (matches ! 1))
         in AList.update ''max_length'' (IntVal (int64 (len - 1))) filters)
      else filters)"

definition checkContains :: "string \<Rightarrow> filters \<Rightarrow> filters" where
  "checkContains lowerQuery filters =
     (let matches = FindStringSubmatch containsRegex lowerQuery in
      if length matches > 1
      then AList.update ''contains_character'' (StringVal (matches ! 1)) filters
      else filters)"

definition checkFirstVowel :: "string \<Rightarrow> filters \<Rightarrow> filters" where
  "checkFirstVowel lowerQuery filters =
     (if strings_Contains lowerQuery ''first vowel''
      then AList.update ''contains_character'' (StringVal ''a'') filters
      else filters)"

definition parseNaturalLanguageQuery :: "(rune \<Rightarrow> rune) \<Rightarrow> string \<Rightarrow> string + filters" where
  "parseNaturalLanguageQuery caseTable query =
     (let lowerQuery = strings_ToLower caseTable query;
          filters =
            checkFirstVowel lowerQuery
              (checkContains lowerQuery
                (checkShorterThan lowerQuery
                  (checkLongerThan lowerQuery
                    (checkWordCount lowerQuery
                      (checkPalindrome lowerQuery [])))))
      in if length filters = 0 then Inl ''could not parse any filters from query''
         else Inr filters)"

section \<open>Filter engine\<close>

text \<open>\<open>matchesFilters\<close>: a \<open>nil\<close> pointer is \<open>None\<close>, and the empty \<open>containsChar\<close> is the
  absent filter.\<close>

definition matchesFilters ::
  "(rune \<Rightarrow> rune) \<Rightarrow> StringData \<Rightarrow> bool option \<Rightarrow> int option \<Rightarrow> int option \<Rightarrow> int option
     \<Rightarrow> string \<Rightarrow> bool" where
  "matchesFilters caseTable data isPal minLength maxLength wordCount containsChar =
     (if isPal \<noteq> None \<and> IsPalindrome (Properties data) \<noteq> the isPal then False
      else if minLength \<noteq> None \<and> Length (Properties data) < the minLength then False
      else if maxLength \<noteq> None \<and> Length (Properties data) > the maxLength then False
      else if wordCount \<noteq> None \<and> WordCount (Properties data) \<noteq> the wordCount then False
      else if containsChar \<noteq> [] \<and>
              \<not> strings_Contains (strings_ToLower caseTable (Value data))
                  (strings_ToLower caseTable containsChar) then False
      else True)"

text \<open>The type assertions of \<open>matchesNaturalFilters\<close>: \<open>filters[k].(bool)\<close> and the like
  succeed when the key is present with a value of that type.\<close>

definition asBool :: "filters \<Rightarrow> string \<Rightarrow> bool option" where
  "asBool filters k = (case map_of filters k of Some (BoolVal b) \<Rightarrow> Some b | _ \<Rightarrow> None)"

definition asInt :: "filters \<Rightarrow> string \<Rightarrow> int option" where
  "asInt filters k = (case map_of filters k of Some (IntVal n) \<Rightarrow> Some n | _ \<Rightarrow> None)"

definition asString :: "filters \<Rightarrow> string \<Rightarrow> string option" where
  "asString filters k = (case map_of filters k of Some (StringVal s) \<Rightarrow> Some s | _ \<Rightarrow> None)"

definition matchesNaturalFilters ::
  "(rune \<Rightarrow> rune) \<Rightarrow> StringData \<Rightarrow> filters \<Rightarrow> bool" where
  "matchesNaturalFilters caseTable data filters =
     (if (case asBool filters ''is_palindrome'' of
            Some isPal \<Rightarrow> IsPalindrome (Properties data) \<noteq> isPal | None \<Rightarrow> False) then False
      else if (case asInt filters ''word_count'' of
            Some wordCount \<Rightarrow> WordCount (Properties data) \<noteq> wordCount | None \<Rightarrow> False) then False
      else if (case asInt filters ''min_length'' of
            Some minLength \<Rightarrow> Length (Properties data) < minLength | None \<Rightarrow> False) then False
      else if (case asInt filters ''max_length'' of
            Some maxLength \<Rightarrow> Length (Properties data) > maxLength | None \<Rightarrow> False) then False
      else if (case asString filters ''contains_character'' of
            Some containsChar \<Rightarrow>
              \<not> strings_Contains (strings_ToLower caseTable (Value data))
                  (strings_ToLower caseTable containsChar)
          | None \<Rightarrow> False) then False
      else True)"

section \<open>Record store and request handlers\<close>

text \<open>The global \<open>storage\<close> map is passed to each handler and returned by those that
  write it; the lock around it plays no part in a run of one request at a time. A
  response is the status and the body the client receives: \<open>ErrorResponse\<close> is a
  \<open>fiber.NewError(code, message)\<close> as \<open>customErrorHandler\<close> renders it (the body
  \<open>{"error": message}\<close>), which is also what \<open>getSpecificString\<close> writes by hand.\<close>

type_synonym storage = "(string \<times> StringData) list"

record InterpretedQuery =
  Original :: string
  ParsedFilters :: filters

record NaturalLanguageResponse =
  Data :: "StringData list"
  Count :: int
  Interpreted :: InterpretedQuery

record GetAllStringsResponse =
  AllData :: "StringData list"
  AllCount :: int
  FiltersApplied :: filters

datatype response =
    ErrorResponse nat string
  | StringResponse nat StringData
  | AllStringsResponse nat GetAllStringsResponse
  | NaturalResponse nat NaturalLanguageResponse
  | EmptyResponse nat

definition StatusOK :: nat where "StatusOK = 200"
definition StatusCreated :: nat where "StatusCreated = 201"
definition StatusNoContent :: nat where "StatusNoContent = 204"
definition StatusBadRequest :: nat where "StatusBadRequest = 400"
definition StatusNotFound :: nat where "StatusNotFound = 404"
definition StatusConflict :: nat where "StatusConflict = 409"

text \<open>\<open>createString\<close>. The body parser's outcome is \<open>None\<close> for a body it refuses; \<open>now\<close> is
  the clock reading \<open>time.Now().UTC()\<close>.\<close>

definition createString ::
  "(string \<Rightarrow> string) \<Rightarrow> (rune \<Rightarrow> rune) \<Rightarrow> nat \<Rightarrow> CreateStringRequest option \<Rightarrow> storage
     \<Rightarrow> response \<times> storage" where
  "createString computeSHA256 caseTable now body storage =
     (case body of
        None \<Rightarrow> (ErrorResponse StatusBadRequest ''Invalid request body'', storage)
      | Some req \<Rightarrow>
          if ReqValue req = [] then
            (ErrorResponse StatusBadRequest ''Missing 'value' field'', storage)
          else
            let hash = computeSHA256 (ReqValue req) in
            if map_of storage (ReqValue req) \<noteq> None then
              (ErrorResponse StatusConflict ''String already exists in the system'', storage)
            else
              let properties = analyzeString computeSHA256 caseTable (ReqValue req);
                  stringData = \<lparr> ID = hash, Value = ReqValue req, Properties = properties,
                                 CreatedAt = now \<rparr>
              in (StringResponse StatusCreated stringData,
                  AList.update (ReqValue req) stringData storage))"

definition getSpecificString :: "string \<Rightarrow> storage \<Rightarrow> response" where
  "getSpecificString stringValue storage =
     (case map_of storage stringValue of
        None \<Rightarrow> ErrorResponse StatusNotFound ''String does not exist in the system''
      | Some data \<Rightarrow> StringResponse StatusOK data)"

definition deleteString :: "string \<Rightarrow> storage \<Rightarrow> response \<times> storage" where
  "deleteString stringValue storage =
     (if map_of storage stringValue = None then
        (ErrorResponse StatusNotFound ''String does not exist in the system'', storage)
      else (EmptyResponse StatusNoContent, AList.delete stringValue storage))"

definition filterByNaturalLanguage :: "(rune \<Rightarrow> rune) \<Rightarrow> string \<Rightarrow> storage \<Rightarrow> response" where
  "filterByNaturalLanguage caseTable query storage =
     (if query = [] then ErrorResponse StatusBadRequest ''Missing 'query' parameter''
      else
        case parseNaturalLanguageQuery caseTable query of
          Inl err \<Rightarrow> ErrorResponse StatusBadRequest (''Unable to parse query: '' @ err)
        | Inr filters \<Rightarrow>
            let filtered = filter (\<lambda>data. matchesNaturalFilters caseTable data filters)
                             (map snd storage)
            in NaturalResponse StatusOK
                 \<lparr> Data = filtered, Count = int (length filtered),
                   Interpreted = \<lparr> Original = query, ParsedFilters = filters \<rparr> \<rparr>)"

text \<open>\<open>getAllStrings\<close>. Its arguments are the five query parameters as \<open>c.Query\<close> returns
  them, the empty string for a parameter that is not given.\<close>

definition getAllStrings ::
  "(rune \<Rightarrow> rune) \<Rightarrow> string \<Rightarrow> string \<Rightarrow> string \<Rightarrow> string \<Rightarrow> string \<Rightarrow> storage
     \<Rightarrow> response" where
  "getAllStrings caseTable isPalindromeStr minLengthStr maxLengthStr wordCountStr containsChar
       storage =
     (if isPalindromeStr \<noteq> [] \<and> strconv_ParseBool isPalindromeStr = None then
        ErrorResponse StatusBadRequest ''Invalid value for is_palindrome''
      else if minLengthStr \<noteq> [] \<and>
              (snd (strconv_Atoi minLengthStr) \<noteq> None \<or> fst (strconv_Atoi minLengthStr) < 0) then
        ErrorResponse StatusBadRequest ''Invalid value for min_length''
      else if maxLengthStr \<noteq> [] \<and>
              (snd (strconv_Atoi maxLengthStr) \<noteq> None \<or> fst (strconv_Atoi maxLengthStr) < 0) then
        ErrorResponse StatusBadRequest ''Invalid value for max_length''
      else if wordCountStr \<noteq> [] \<and>
              (snd (strconv_Atoi wordCountStr) \<noteq> None \<or> fst (strconv_Atoi wordCountStr) < 0) then
        ErrorResponse StatusBadRequest ''Invalid value for word_count''
      else if containsChar \<noteq> [] \<and> length containsChar \<noteq> 1 then
        ErrorResponse StatusBadRequest ''contains_character must be a single character''
      else
        let isPal = (if isPalindromeStr \<noteq> [] then strconv_ParseBool isPalindromeStr else None);
            minLength = (if minLengthStr \<noteq> [] then Some (fst (strconv_Atoi minLengthStr)) else None);
            maxLength = (if maxLengthStr \<noteq> [] then Some (fst (strconv_Atoi maxLengthStr)) else None);
            wordCount = (if wordCountStr \<noteq> [] then Some (fst (strconv_Atoi wordCountStr)) else None);
            applied1 = (case isPal of None \<Rightarrow> []
                        | Some v \<Rightarrow> AList.update ''is_palindrome'' (BoolVal v) []);
            applied2 = (case minLength of None \<Rightarrow> applied1
                        | Some v \<Rightarrow> AList.update ''min_length'' (IntVal v) applied1);
            applied3 = (case maxLength of None \<Rightarrow> applied2
                        | Some v \<Rightarrow> AList.update ''max_length'' (IntVal v) applied2);
            applied4 = (case wordCount of None \<Rightarrow> applied3
                        | Some v \<Rightarrow> AList.update ''word_count'' (IntVal v) applied3);
            filtersApplied =
              (if containsChar \<noteq> []
               then AList.update ''contains_character'' (StringVal containsChar) applied4
               else applied4);
            filtered =
              filter (\<lambda>data. matchesFilters caseTable data isPal minLength maxLength wordCount
                               containsChar)
                (map snd storage)
        in AllStringsResponse StatusOK
             \<lparr> AllData = filtered, AllCount = int (length filtered),
               FiltersApplied = filtersApplied \<rparr>)"

text \<open>The routes of \<open>main\<close>: a request is served by its handler, which answers and
  leaves the store as the next request finds it. \<open>serve\<close> runs a sequence of requests
  from the empty store of a fresh process.\<close>

datatype request =
    PostStrings nat "CreateStringRequest option"
  | GetNaturalLanguage string
  | GetStrings string string string string string
  | GetString string
  | DeleteString string

fun route ::
  "(string \<Rightarrow> string) \<Rightarrow> (rune \<Rightarrow> rune) \<Rightarrow> request \<Rightarrow> storage \<Rightarrow> response \<times> storage" where
  "route computeSHA256 caseTable (PostStrings now body) storage =
     createString computeSHA256 caseTable now body storage"
| "route computeSHA256 caseTable (GetNaturalLanguage query) storage =
     (filterByNaturalLanguage caseTable query storage, storage)"
| "route computeSHA256 caseTable (GetStrings p mn mx wc cc) storage =
     (getAllStrings caseTable p mn mx wc cc storage, storage)"
| "route computeSHA256 caseTable (GetString v) storage = (getSpecificString v storage, storage)"
| "route computeSHA256 caseTable (DeleteString v) storage = deleteString v storage"

definition serve :: "(string \<Rightarrow> string) \<Rightarrow> (rune \<Rightarrow> rune) \<Rightarrow> request list \<Rightarrow> storage" where
  "serve computeSHA256 caseTable requests =
     fold (\<lambda>req storage. snd (route computeSHA256 caseTable req storage)) requests []"

section \<open>The specification's notions\<close>

text \<open>The normalized sequence of the palindrome check, in the specification's words: the
  characters of the string that are ASCII letters or digits, lower-cased.\<close>

definition lowerRune :: "rune \<Rightarrow> rune" where
  "lowerRune r = (if 0x41 \<le> r \<and> r \<le> 0x5A then r + 0x20 else r)"

definition normalized :: "string \<Rightarrow> rune list" where
  "normalized s = map lowerRune (filter isAlnum (runes s))"

text \<open>The Unicode code points (scalar values): everything up to \<open>0x10FFFF\<close> but the
  surrogates.\<close>

definition validRune :: "rune \<Rightarrow> bool" where
  "validRune r = (r < 0xD800 \<or> (0xE000 \<le> r \<and> r \<le> 0x10FFFF))"

text \<open>The decimal integer that a string of digits denotes.\<close>

definition decimal :: "string \<Rightarrow> nat" where
  "decimal ds = foldl (\<lambda>n c. n * 10 + (byte c - 0x30)) 0 ds"




text \<open>A response that reports a conflict, and one that reports a missing record.\<close>

definition isConflict :: "response \<Rightarrow> bool" where
  "isConflict r = (case r of ErrorResponse code msg \<Rightarrow> code = StatusConflict | _ \<Rightarrow> False)"

definition isNotFound :: "response \<Rightarrow> bool" where
  "isNotFound r = (case r of ErrorResponse code msg \<Rightarrow> code = StatusNotFound | _ \<Rightarrow> False)"

section \<open>The decoder\<close>

lemma decode_ascii_step:
  "byte c < 0x80 \<Longrightarrow> utf8_DecodeRuneInString (c # cs) = (byte c, 1)"
  by (simp add: decode_rune runeSize_def Let_def)

lemma decode_width:
  "utf8_DecodeRuneInString (c # cs) = (r, w) \<Longrightarrow> 1 \<le> w \<and> w \<le> 4 \<and> w \<le> Suc (length cs)"
  by (auto simp: decode_rune runeSize_def Let_def Suc_le_eq split: if_splits)

lemma decode_nonascii_step:
  assumes "utf8_DecodeRuneInString (c # cs) = (r, w)" and "\<not> byte c < 0x80"
  shows "0x80 \<le> r \<and> list_all (\<lambda>b. 0x80 \<le> byte b) (take w (c # cs))"
proof (cases cs)
  case Nil
  with assms show ?thesis
    by (auto simp: decode_rune runeSize_def Let_def RuneError_def split: if_splits)
next
  case (Cons c1 cs1)
  note c1 = this
  show ?thesis
  proof (cases cs1)
    case Nil
    with assms c1 show ?thesis
      by (auto simp: decode_rune runeSize_def Let_def RuneError_def acceptLo_def acceptHi_def split: if_splits)
  next
    case (Cons c2 cs2)
    note c2 = this
    show ?thesis
    proof (cases cs2)
      case Nil
      with assms c1 c2 show ?thesis
        by (auto simp: decode_rune runeSize_def Let_def RuneError_def acceptLo_def acceptHi_def split: if_splits)
    next
      case (Cons c3 cs3)
      with assms c1 c2 show ?thesis
        by (auto simp: decode_rune runeSize_def Let_def RuneError_def acceptLo_def acceptHi_def split: if_splits)
    qed
  qed
qed

lemma decode_Cons:
  "utf8_DecodeRuneInString (c # cs) = (r, w) \<Longrightarrow>
   decode (c # cs) = (r, take w (c # cs)) # decode (drop (w - 1) cs)"
  by simp

lemma isAlnum_ascii: "isAlnum r \<Longrightarrow> r < 0x80"
  by (auto simp: isAlnum_def)

lemma filter_high_bytes:
  "list_all (\<lambda>b. 0x80 \<le> byte b) bs \<Longrightarrow> filter (\<lambda>c. isAlnum (byte c)) bs = []"
  by (induction bs) (auto dest: isAlnum_ascii)

lemma removeNonAlnum_filter: "removeNonAlnum s = filter (\<lambda>c. isAlnum (byte c)) s"
proof (induction s rule: decode.induct)
  case 1
  show ?case by (simp add: removeNonAlnum_def)
next
  case (2 c cs)
  obtain r w where rw: "utf8_DecodeRuneInString (c # cs) = (r, w)"
    by (cases "utf8_DecodeRuneInString (c # cs)")
  have IH: "removeNonAlnum (drop (w - 1) cs) = filter (\<lambda>c. isAlnum (byte c)) (drop (w - 1) cs)"
    using "2.IH" [of "(r, w)" r w] rw by simp
  have unfold: "removeNonAlnum (c # cs) =
      (if isAlnum r then take w (c # cs) else []) @ removeNonAlnum (drop (w - 1) cs)"
    using rw by (simp add: removeNonAlnum_def)
  show ?case
  proof (cases "byte c < 0x80")
    case True
    then have "r = byte c" "w = 1"
      using rw decode_ascii_step [of c cs] by simp_all
    then show ?thesis using unfold IH by simp
  next
    case False
    from decode_nonascii_step [OF rw False]
    have hi: "0x80 \<le> r" "list_all (\<lambda>b. 0x80 \<le> byte b) (take w (c # cs))" by simp_all
    from decode_width [OF rw] have w: "1 \<le> w" by simp
    have "filter (\<lambda>c. isAlnum (byte c)) (c # cs) =
          filter (\<lambda>c. isAlnum (byte c)) (take w (c # cs) @ drop w (c # cs))"
      by (simp only: append_take_drop_id)
    also have "\<dots> = filter (\<lambda>c. isAlnum (byte c)) (drop w (c # cs))"
      using filter_high_bytes [OF hi(2)] by (simp only: filter_append) simp
    also have "drop w (c # cs) = drop (w - 1) cs"
      using w by (cases w) simp_all
    finally have "filter (\<lambda>c. isAlnum (byte c)) (c # cs) = filter (\<lambda>c. isAlnum (byte c)) (drop (w - 1) cs)" .
    moreover have "\<not> isAlnum r" using hi(1) isAlnum_ascii [of r] by auto
    ultimately show ?thesis using unfold IH by simp
  qed
qed

lemma runes_alnum: "filter isAlnum (runes s) = map byte (filter (\<lambda>c. isAlnum (byte c)) s)"
proof (induction s rule: decode.induct)
  case 1
  show ?case by (simp add: runes_def)
next
  case (2 c cs)
  obtain r w where rw: "utf8_DecodeRuneInString (c # cs) = (r, w)"
    by (cases "utf8_DecodeRuneInString (c # cs)")
  have IH: "filter isAlnum (runes (drop (w - 1) cs)) = map byte (filter (\<lambda>c. isAlnum (byte c)) (drop (w - 1) cs))"
    using "2.IH" [of "(r, w)" r w] rw by simp
  have unfold: "runes (c # cs) = r # runes (drop (w - 1) cs)"
    using rw by (simp add: runes_def)
  show ?case
  proof (cases "byte c < 0x80")
    case True
    then have "r = byte c" "w = 1"
      using rw decode_ascii_step [of c cs] by simp_all
    then show ?thesis using unfold IH by simp
  next
    case False
    from decode_nonascii_step [OF rw False]
    have hi: "0x80 \<le> r" "list_all (\<lambda>b. 0x80 \<le> byte b) (take w (c # cs))" by simp_all
    from decode_width [OF rw] have w: "1 \<le> w" by simp
    have "filter (\<lambda>c. isAlnum (byte c)) (c # cs) =
          filter (\<lambda>c. isAlnum (byte c)) (take w (c # cs) @ drop w (c # cs))"
      by (simp only: append_take_drop_id)
    also have "\<dots> = filter (\<lambda>c. isAlnum (byte c)) (drop w (c # cs))"
      using filter_high_bytes [OF hi(2)] by (simp only: filter_append) simp
    also have "drop w (c # cs) = drop (w - 1) cs"
      using w by (cases w) simp_all
    finally have "filter (\<lambda>c. isAlnum (byte c)) (c # cs) = filter (\<lambda>c. isAlnum (byte c)) (drop (w - 1) cs)" .
    moreover have "\<not> isAlnum r" using hi(1) isAlnum_ascii [of r] by auto
    ultimately show ?thesis using unfold IH by simp
  qed
qed

lemma decode_ascii: "list_all (\<lambda>c. byte c < 0x80) s \<Longrightarrow> decode s = map (\<lambda>c. (byte c, [c])) s"
  by (induction s) (simp_all add: decode_ascii_step)

lemma runes_ascii: "list_all (\<lambda>c. byte c < 0x80) s \<Longrightarrow> runes s = map byte s"
  by (simp add: runes_def decode_ascii comp_def)

section \<open>Palindrome check\<close>

lemma palindromeLoop_iff:
  "palindromeLoop cs i \<longleftrightarrow> (\<forall>j. i \<le> j \<and> j < length cs div 2 \<longrightarrow> cs ! j = cs ! (length cs - 1 - j))"
proof (induction cs i rule: palindromeLoop.induct)
  case (1 cleaned i)
  show ?case
  proof (cases "i < length cleaned div 2")
    case False
    then show ?thesis by (subst palindromeLoop.simps) auto
  next
    case True
    show ?thesis
    proof (cases "cleaned ! i = cleaned ! (length cleaned - 1 - i)")
      case False
      then show ?thesis using True by (subst palindromeLoop.simps) auto
    next
      case eq: True
      have "palindromeLoop cleaned i = palindromeLoop cleaned (Suc i)"
        using True eq by (subst palindromeLoop.simps) simp
      also have "\<dots> \<longleftrightarrow> (\<forall>j. Suc i \<le> j \<and> j < length cleaned div 2 \<longrightarrow>
          cleaned ! j = cleaned ! (length cleaned - 1 - j))"
        using "1.IH" True eq by simp
      also have "\<dots> \<longleftrightarrow> (\<forall>j. i \<le> j \<and> j < length cleaned div 2 \<longrightarrow>
          cleaned ! j = cleaned ! (length cleaned - 1 - j))"
        using eq by (metis Suc_leI le_neq_implies_less Suc_leD)
      finally show ?thesis .
    qed
  qed
qed

lemma rev_eq_iff_half:
  "xs = rev xs \<longleftrightarrow> (\<forall>j. j < length xs div 2 \<longrightarrow> xs ! j = xs ! (length xs - 1 - j))"
proof
  assume eq: "xs = rev xs"
  show "\<forall>j. j < length xs div 2 \<longrightarrow> xs ! j = xs ! (length xs - 1 - j)"
  proof (intro allI impI)
    fix j assume "j < length xs div 2"
    then have jl: "j < length xs" by arith
    have "xs ! j = rev xs ! j" by (rule arg_cong [OF eq, of "\<lambda>l. l ! j"])
    also have "\<dots> = xs ! (length xs - Suc j)" by (rule rev_nth [OF jl])
    finally show "xs ! j = xs ! (length xs - 1 - j)" by simp
  qed
next
  assume half: "\<forall>j. j < length xs div 2 \<longrightarrow> xs ! j = xs ! (length xs - 1 - j)"
  show "xs = rev xs"
  proof (rule nth_equalityI)
    show "length xs = length (rev xs)" by simp
  next
    fix j assume j: "j < length xs"
    let ?k = "length xs - 1 - j"
    have "xs ! j = xs ! ?k"
    proof (cases "j < length xs div 2")
      case True
      with half show ?thesis by simp
    next
      case False
      show ?thesis
      proof (cases "?k < length xs div 2")
        case True
        with half have "xs ! ?k = xs ! (length xs - 1 - ?k)" by simp
        moreover have "length xs - 1 - ?k = j" using j by arith
        ultimately show ?thesis by simp
      next
        case k: False
        with False j have "?k = j" by arith
        then show ?thesis by simp
      qed
    qed
    then show "xs ! j = rev xs ! j" using j by (simp add: rev_nth)
  qed
qed

lemma palindromeLoop_rev: "palindromeLoop cs 0 \<longleftrightarrow> cs = rev cs"
  by (simp add: palindromeLoop_iff rev_eq_iff_half)


lemma byte_lowerByte: "byte (lowerByte c) = lowerRune (byte c)"
  by (simp add: lowerByte_def lowerRune_def)

lemma alnum_bytes_ascii: "list_all (\<lambda>c. byte c < 0x80) (filter (\<lambda>c. isAlnum (byte c)) s)"
  by (induction s) (auto dest: isAlnum_ascii)

lemma cleaned_eq:
  "strings_ToLower t (removeNonAlnum s) = map lowerByte (filter (\<lambda>c. isAlnum (byte c)) s)"
  by (simp add: strings_ToLower_def removeNonAlnum_filter alnum_bytes_ascii)

lemma bytes_cleaned: "map byte (strings_ToLower t (removeNonAlnum s)) = normalized s"
  by (simp add: cleaned_eq normalized_def runes_alnum byte_lowerByte comp_def)

lemma isPalindrome_normalized: "isPalindrome t s \<longleftrightarrow> normalized s = rev (normalized s)"
proof -
  let ?cleaned = "strings_ToLower t (removeNonAlnum s)"
  have "isPalindrome t s \<longleftrightarrow> ?cleaned = rev ?cleaned"
    by (simp add: isPalindrome_def palindromeLoop_rev Let_def)
  also have "\<dots> \<longleftrightarrow> map byte ?cleaned = map byte (rev ?cleaned)"
    by (simp only: inj_map_eq_map [OF inj_of_char])
  also have "\<dots> \<longleftrightarrow> normalized s = rev (normalized s)"
    by (simp only: bytes_cleaned rev_map [symmetric])
  finally show ?thesis .
qed

lemma short_rev: "length xs \<le> 1 \<Longrightarrow> xs = rev xs"
  by (cases xs) auto

text \<open>Claim C5. For every string, \<open>isPalindrome\<close> holds exactly when the normalized
  sequence (the characters that are ASCII letters or digits, lower-cased) is equal to its
  reverse; a normalized sequence that is empty or has one character is a palindrome.\<close>

theorem isPalindrome_spec:
  "isPalindrome caseTable s = (normalized s = rev (normalized s))
   \<and> (length (normalized s) \<le> 1 \<longrightarrow> isPalindrome caseTable s)"
  using short_rev [of "normalized s"] by (simp add: isPalindrome_normalized)

theorem isPalindrome_spec_witness:
  "length (normalized ''?x!'') \<le> 1 \<and> isPalindrome id ''?x!''"
proof -
  have n: "normalized ''?x!'' = [120]"
    by (simp add: normalized_def runes_ascii isAlnum_def lowerRune_def)
  then have len: "length (normalized ''?x!'') \<le> 1" by simp
  have "length (normalized ''?x!'') \<le> 1 \<longrightarrow> isPalindrome id ''?x!''"
    using isPalindrome_spec [of id "''?x!''"] by (rule conjunct2)
  with len show ?thesis by blast
qed

section \<open>Filter engine: what a match is\<close>

lemma strings_Contains_sublist: "strings_Contains s p \<longleftrightarrow> sublist p s"
proof (induction s)
  case Nil
  show ?case by simp
next
  case (Cons c cs)
  have "strings_Contains (c # cs) p \<longleftrightarrow> prefix p (c # cs) \<or> strings_Contains cs p"
    by (simp only: strings_Contains.simps)
  also have "\<dots> \<longleftrightarrow> prefix p (c # cs) \<or> sublist p cs"
    by (simp only: Cons.IH)
  also have "\<dots> \<longleftrightarrow> sublist p (c # cs)"
    by (simp only: sublist_Cons_right)
  finally show ?case .
qed

text \<open>Claim C7. For every record and filter set, \<open>matchesFilters\<close> is true exactly when
  every filter that is present holds: the palindrome flag and the word count are equal to
  the record's, \<open>min_length\<close> and \<open>max_length\<close> are inclusive bounds on the record's
  length, and the required character, lower-cased, is a substring of the record's
  lower-cased original value. With no filter present every record matches.\<close>

theorem matchesFilters_spec:
  "matchesFilters caseTable data isPal minLength maxLength wordCount containsChar =
     ((\<forall>b. isPal = Some b \<longrightarrow> IsPalindrome (Properties data) = b)
      \<and> (\<forall>n. minLength = Some n \<longrightarrow> n \<le> Length (Properties data))
      \<and> (\<forall>n. maxLength = Some n \<longrightarrow> Length (Properties data) \<le> n)
      \<and> (\<forall>n. wordCount = Some n \<longrightarrow> WordCount (Properties data) = n)
      \<and> (containsChar \<noteq> [] \<longrightarrow>
            sublist (strings_ToLower caseTable containsChar)
              (strings_ToLower caseTable (Value data))))
   \<and> matchesFilters caseTable data None None None None []"
  unfolding strings_Contains_sublist [symmetric]
  by (cases isPal; cases minLength; cases maxLength; cases wordCount; cases "containsChar = []")
     (simp_all add: matchesFilters_def)

lemma ToLower_ascii:
  "list_all (\<lambda>c. byte c < 0x80) s \<Longrightarrow> strings_ToLower t s = map lowerByte s"
  by (simp add: strings_ToLower_def)

lemmas char_eval = lowerByte_def char_of_def bit_0

theorem matchesFilters_spec_witness:
  "matchesFilters id
     \<lparr> ID = ''id'', Value = ''Hello'',
       Properties = \<lparr> Length = 5, IsPalindrome = False, UniqueCharacters = 4, WordCount = 1,
                      SHA256Hash = ''id'', CharacterFrequencyMap = [] \<rparr>,
       CreatedAt = 0 \<rparr>
     (Some False) (Some 5) (Some 5) (Some 1) ''h''
   \<and> \<not> matchesFilters id
     \<lparr> ID = ''id'', Value = ''Hello'',
       Properties = \<lparr> Length = 5, IsPalindrome = False, UniqueCharacters = 4, WordCount = 1,
                      SHA256Hash = ''id'', CharacterFrequencyMap = [] \<rparr>,
       CreatedAt = 0 \<rparr>
     None (Some 6) None None []"
proof -
  let ?d = "\<lparr> ID = ''id'', Value = ''Hello'',
       Properties = \<lparr> Length = 5, IsPalindrome = False, UniqueCharacters = 4, WordCount = 1,
                      SHA256Hash = ''id'', CharacterFrequencyMap = [] \<rparr>,
       CreatedAt = 0 \<rparr>"
  have l1: "strings_ToLower id ''Hello'' = ''hello''"
    by (simp add: ToLower_ascii char_eval)
  have l2: "strings_ToLower id ''h'' = ''h''"
    by (simp add: ToLower_ascii char_eval)
  have s: "sublist ''h'' ''hello''"
    by (simp add: sublist_Cons_right)
  have a: "matchesFilters id ?d (Some False) (Some 5) (Some 5) (Some 1) ''h''"
    using matchesFilters_spec [of id ?d "Some False" "Some 5" "Some 5" "Some 1" "''h''"] l1 l2 s
    by simp
  have b: "\<not> matchesFilters id ?d None (Some 6) None None []"
    using matchesFilters_spec [of id ?d None "Some 6" None None "[]"]
    by simp
  from a b show ?thesis by simp
qed


section \<open>Record store\<close>

lemma createString_fail_unchanged:
  "fst (createString h t n body st) = ErrorResponse code msg \<Longrightarrow>
   snd (createString h t n body st) = st"
  by (auto simp: createString_def Let_def split: option.splits if_splits)

lemma createString_second:
  "v \<noteq> [] \<Longrightarrow>
   map_of (snd (createString h t n (Some \<lparr> ReqValue = v \<rparr>) st)) v \<noteq> None"
  by (auto simp: createString_def Let_def update_conv')

lemma createString_conflict:
  "v \<noteq> [] \<Longrightarrow> map_of st v \<noteq> None \<Longrightarrow>
   createString h t n (Some \<lparr> ReqValue = v \<rparr>) st =
     (ErrorResponse StatusConflict ''String already exists in the system'', st)"
  by (auto simp: createString_def Let_def)

lemma createString_created:
  "createString h t n (Some \<lparr> ReqValue = v \<rparr>) st = (StringResponse code d, st') \<Longrightarrow>
   map_of st' v = Some d"
  by (auto simp: createString_def Let_def update_conv' split: if_splits)

lemma deleteString_absent: "map_of (snd (deleteString v st)) v = None"
  by (simp add: deleteString_def delete_conv')

lemma deleteString_fail_unchanged:
  "fst (deleteString v st) = ErrorResponse code msg \<Longrightarrow> snd (deleteString v st) = st"
  by (auto simp: deleteString_def split: if_splits)

text \<open>Claim C8, amended to non-empty values. For every non-empty value \<open>v\<close>, a second
  insert of \<open>v\<close> right after a first one fails with Conflict and leaves the store as it
  was. For every value: a lookup after a successful insert returns the record that was
  stored, a lookup after a delete fails with NotFound, and every insert or delete that
  fails leaves the store unchanged.\<close>

theorem store_operations:
  "(v \<noteq> [] \<longrightarrow>
      createString h t n2 (Some \<lparr> ReqValue = v \<rparr>)
          (snd (createString h t n1 (Some \<lparr> ReqValue = v \<rparr>) st)) =
        (ErrorResponse StatusConflict ''String already exists in the system'',
         snd (createString h t n1 (Some \<lparr> ReqValue = v \<rparr>) st)))
   \<and> (\<forall>d st'. createString h t n1 (Some \<lparr> ReqValue = v \<rparr>) st =
                  (StringResponse StatusCreated d, st') \<longrightarrow>
               getSpecificString v st' = StringResponse StatusOK d)
   \<and> getSpecificString v (snd (deleteString v st)) =
         ErrorResponse StatusNotFound ''String does not exist in the system''
   \<and> (\<forall>body code msg. fst (createString h t n1 body st) = ErrorResponse code msg \<longrightarrow>
          snd (createString h t n1 body st) = st)
   \<and> (\<forall>code msg. fst (deleteString v st) = ErrorResponse code msg \<longrightarrow>
          snd (deleteString v st) = st)"
proof (intro conjI impI allI)
  assume ne: "v \<noteq> []"
  show "createString h t n2 (Some \<lparr> ReqValue = v \<rparr>)
          (snd (createString h t n1 (Some \<lparr> ReqValue = v \<rparr>) st)) =
        (ErrorResponse StatusConflict ''String already exists in the system'',
         snd (createString h t n1 (Some \<lparr> ReqValue = v \<rparr>) st))"
    by (rule createString_conflict [OF ne createString_second [OF ne]])
next
  fix d st'
  assume "createString h t n1 (Some \<lparr> ReqValue = v \<rparr>) st = (StringResponse StatusCreated d, st')"
  then have "map_of st' v = Some d" by (rule createString_created)
  then show "getSpecificString v st' = StringResponse StatusOK d"
    by (simp add: getSpecificString_def)
next
  show "getSpecificString v (snd (deleteString v st)) =
         ErrorResponse StatusNotFound ''String does not exist in the system''"
    by (simp add: getSpecificString_def deleteString_absent)
next
  fix body code msg
  assume "fst (createString h t n1 body st) = ErrorResponse code msg"
  then show "snd (createString h t n1 body st) = st" by (rule createString_fail_unchanged)
next
  fix code msg
  assume "fst (deleteString v st) = ErrorResponse code msg"
  then show "snd (deleteString v st) = st" by (rule deleteString_fail_unchanged)
qed

text \<open>The claim as stated, for every value, fails at the empty value: both inserts are
  refused as invalid input, so the second one does not report a conflict.\<close>

theorem second_insert_empty_counterexample:
  "\<not> isConflict (fst (createString id id 1 (Some \<lparr> ReqValue = [] \<rparr>)
       (snd (createString id id 0 (Some \<lparr> ReqValue = [] \<rparr>) []))))"
  by (simp add: createString_def isConflict_def StatusBadRequest_def StatusConflict_def)


theorem store_operations_witness:
  "''ekondo'' \<noteq> []
   \<and> isConflict (fst (createString id id 2 (Some \<lparr> ReqValue = ''ekondo'' \<rparr>)
         (snd (createString id id 1 (Some \<lparr> ReqValue = ''ekondo'' \<rparr>) []))))
   \<and> (\<exists>d st'. createString id id 1 (Some \<lparr> ReqValue = ''ekondo'' \<rparr>) [] =
          (StringResponse StatusCreated d, st')
        \<and> getSpecificString ''ekondo'' st' = StringResponse StatusOK d)
   \<and> isNotFound (getSpecificString ''ekondo'' (snd (deleteString ''ekondo''
         (snd (createString id id 1 (Some \<lparr> ReqValue = ''ekondo'' \<rparr>) [])))))
   \<and> fst (createString id id 1 None []) = ErrorResponse StatusBadRequest ''Invalid request body''
   \<and> snd (createString id id 1 None []) = []
   \<and> isNotFound (fst (deleteString ''ekondo'' []))
   \<and> snd (deleteString ''ekondo'' []) = []"
proof -
  let ?v = "''ekondo''"
  let ?st1 = "snd (createString id id 1 (Some \<lparr> ReqValue = ?v \<rparr>) [])"
  note ops = store_operations [of ?v id id 2 1]
  have ne: "?v \<noteq> []" by simp
  have c1: "createString id id 1 (Some \<lparr> ReqValue = ?v \<rparr>) [] =
      (StringResponse StatusCreated
         \<lparr> ID = id ?v, Value = ?v, Properties = analyzeString id id ?v, CreatedAt = 1 \<rparr>,
       [(?v, \<lparr> ID = id ?v, Value = ?v, Properties = analyzeString id id ?v, CreatedAt = 1 \<rparr>)])"
    by (simp add: createString_def Let_def)
  have a: "isConflict (fst (createString id id 2 (Some \<lparr> ReqValue = ?v \<rparr>) ?st1))"
    using ops [of "[]"] ne by (simp add: isConflict_def)
  have b: "\<exists>d st'. createString id id 1 (Some \<lparr> ReqValue = ?v \<rparr>) [] =
          (StringResponse StatusCreated d, st')
        \<and> getSpecificString ?v st' = StringResponse StatusOK d"
    using ops [of "[]"] c1 by blast
  have c: "isNotFound (getSpecificString ?v (snd (deleteString ?v ?st1)))"
    using ops [of ?st1] by (simp add: isNotFound_def)
  have d1: "fst (createString id id 1 None []) = ErrorResponse StatusBadRequest ''Invalid request body''"
    by (simp add: createString_def)
  have d2: "snd (createString id id 1 None []) = []"
    using ops [of "[]"] d1 by blast
  have e1: "fst (deleteString ?v []) = ErrorResponse StatusNotFound ''String does not exist in the system''"
    by (simp add: deleteString_def)
  have e2: "snd (deleteString ?v []) = []"
    using ops [of "[]"] e1 by blast
  have e3: "isNotFound (fst (deleteString ?v []))"
    using e1 by (simp add: isNotFound_def)
  from ne a b c d1 d2 e3 e2 show ?thesis by blast
qed

section \<open>Empty value\<close>

lemma route_keeps_empty_absent:
  "map_of st [] = None \<Longrightarrow> map_of (snd (route h t req st)) [] = None"
  by (cases req)
     (auto simp: createString_def deleteString_def Let_def update_conv' delete_conv'
           split: option.splits)

lemma fold_route_keeps_empty_absent:
  "map_of st [] = None \<Longrightarrow>
   map_of (fold (\<lambda>req storage. snd (route h t req storage)) requests st) [] = None"
  by (induction requests arbitrary: st) (simp_all add: route_keeps_empty_absent)

lemma normalized_Nil: "normalized [] = []"
  by (simp add: normalized_def runes_def)

lemma analyzeString_Nil:
  "analyzeString h t [] =
     \<lparr> Length = 0, IsPalindrome = True, UniqueCharacters = 0, WordCount = 0,
       SHA256Hash = h [], CharacterFrequencyMap = [] \<rparr>"
  by (simp add: analyzeString_def isPalindrome_normalized normalized_Nil
        countUniqueCharacters_def countWords_def getCharacterFrequency_def runes_def
        strings_TrimSpace_def)

text \<open>Claim C9. Creating a record with the empty value fails with the invalid-input error
  "Missing 'value' field" and leaves the store untouched; whatever requests are served
  from the empty store, the empty string is never a key of it; and the analyzer is total
  on the empty string, giving length 0, palindrome, no characters and no words.\<close>

theorem empty_value_never_stored:
  "createString h t now (Some \<lparr> ReqValue = [] \<rparr>) st =
     (ErrorResponse StatusBadRequest ''Missing 'value' field'', st)
   \<and> map_of (serve h t requests) [] = None
   \<and> analyzeString h t [] =
       \<lparr> Length = 0, IsPalindrome = True, UniqueCharacters = 0, WordCount = 0,
         SHA256Hash = h [], CharacterFrequencyMap = [] \<rparr>"
  by (simp add: createString_def serve_def fold_route_keeps_empty_absent analyzeString_Nil)

theorem empty_value_never_stored_witness:
  "fst (createString id id 0 (Some \<lparr> ReqValue = [] \<rparr>) []) =
     ErrorResponse StatusBadRequest ''Missing 'value' field''
   \<and> map_of (serve id id [PostStrings 0 (Some \<lparr> ReqValue = [] \<rparr>),
                           PostStrings 1 (Some \<lparr> ReqValue = ''a'' \<rparr>),
                           DeleteString []]) [] = None"
  using empty_value_never_stored [of id id 0 "[]"
          "[PostStrings 0 (Some \<lparr> ReqValue = [] \<rparr>), PostStrings 1 (Some \<lparr> ReqValue = ''a'' \<rparr>),
            DeleteString []]"]
  by simp


section \<open>Examples of the analyzer\<close>

lemma panama_palindrome: "isPalindrome t ''A man a plan a canal Panama''"
  by (simp add: isPalindrome_normalized normalized_def runes_ascii isAlnum_def lowerRune_def)

lemma panama_words: "countWords ''A man a plan a canal Panama'' = 7"
proof -
  have d: "decode ''A man a plan a canal Panama'' =
      map (\<lambda>c. (byte c, [c])) ''A man a plan a canal Panama''"
    by (rule decode_ascii) simp
  have trim: "strings_TrimSpace ''A man a plan a canal Panama'' = ''A man a plan a canal Panama''"
    unfolding strings_TrimSpace_def d by (simp add: unicode_IsSpace_def)
  have "strings_Fields ''A man a plan a canal Panama'' =
      [''A'', ''man'', ''a'', ''plan'', ''a'', ''canal'', ''Panama'']"
    unfolding strings_Fields_def d by (simp add: unicode_IsSpace_def)
  then show ?thesis by (simp add: countWords_def trim)
qed

text \<open>Claim C6, amended in the word count. The record created for
  "A man a plan a canal Panama" is a palindrome and has word count 7.\<close>

theorem panama_record:
  "IsPalindrome (analyzeString h t ''A man a plan a canal Panama'')
   \<and> WordCount (analyzeString h t ''A man a plan a canal Panama'') = 7
   \<and> (map_of st ''A man a plan a canal Panama'' = None \<longrightarrow>
        (\<exists>d. createString h t now (Some \<lparr> ReqValue = ''A man a plan a canal Panama'' \<rparr>) st =
                (StringResponse StatusCreated d,
                 AList.update ''A man a plan a canal Panama'' d st)
             \<and> Value d = ''A man a plan a canal Panama''
             \<and> IsPalindrome (Properties d) \<and> WordCount (Properties d) = 7))"
proof -
  have p: "IsPalindrome (analyzeString h t ''A man a plan a canal Panama'')"
    by (simp add: analyzeString_def panama_palindrome)
  have w: "WordCount (analyzeString h t ''A man a plan a canal Panama'') = 7"
    by (simp add: analyzeString_def panama_words)
  have "map_of st ''A man a plan a canal Panama'' = None \<Longrightarrow>
        createString h t now (Some \<lparr> ReqValue = ''A man a plan a canal Panama'' \<rparr>) st =
          (StringResponse StatusCreated
             \<lparr> ID = h ''A man a plan a canal Panama'', Value = ''A man a plan a canal Panama'',
               Properties = analyzeString h t ''A man a plan a canal Panama'', CreatedAt = now \<rparr>,
           AList.update ''A man a plan a canal Panama''
             \<lparr> ID = h ''A man a plan a canal Panama'', Value = ''A man a plan a canal Panama'',
               Properties = analyzeString h t ''A man a plan a canal Panama'', CreatedAt = now \<rparr> st)"
    by (simp add: createString_def Let_def)
  with p w show ?thesis by auto
qed

theorem panama_record_witness:
  "map_of [] ''A man a plan a canal Panama'' = (None :: StringData option)
   \<and> (\<exists>d. createString id id 0 (Some \<lparr> ReqValue = ''A man a plan a canal Panama'' \<rparr>) [] =
             (StringResponse StatusCreated d, [(''A man a plan a canal Panama'', d)])
          \<and> IsPalindrome (Properties d) \<and> WordCount (Properties d) = 7)"
  using panama_record [of id id "[]" 0] by auto

text \<open>The claim as stated gives the word count as 6; the value has seven words.\<close>

theorem panama_six_words_counterexample:
  "WordCount (analyzeString id id ''A man a plan a canal Panama'') \<noteq> 6"
  by (simp add: analyzeString_def panama_words)

section \<open>Length, unique characters and the frequency map\<close>

text \<open>The decoder yields code points only, and encoding is one-to-one on them.\<close>

lemma decode_valid:
  assumes "utf8_DecodeRuneInString (c # cs) = (r, w)"
  shows "validRune r"
proof (cases cs)
  case Nil
  with assms show ?thesis
    by (auto simp: decode_rune runeSize_def Let_def RuneError_def validRune_def split: if_splits)
next
  case (Cons c1 cs1)
  note c1 = this
  show ?thesis
  proof (cases cs1)
    case Nil
    with assms c1 show ?thesis
      by (auto simp: decode_rune runeSize_def Let_def RuneError_def validRune_def acceptLo_def
            acceptHi_def split: if_splits)
  next
    case (Cons c2 cs2)
    note c2 = this
    show ?thesis
    proof (cases cs2)
      case Nil
      with assms c1 c2 show ?thesis
        by (auto simp: decode_rune runeSize_def Let_def RuneError_def validRune_def acceptLo_def
              acceptHi_def split: if_splits)
    next
      case (Cons c3 cs3)
      with assms c1 c2 show ?thesis
        by (auto simp: decode_rune runeSize_def Let_def RuneError_def validRune_def acceptLo_def
              acceptHi_def split: if_splits; arith)
    qed
  qed
qed

lemma runes_Cons:
  "utf8_DecodeRuneInString (c # cs) = (r, w) \<Longrightarrow> runes (c # cs) = r # runes (drop (w - 1) cs)"
  by (simp add: runes_def)

lemma runes_valid: "r \<in> set (runes s) \<Longrightarrow> validRune r"
proof (induction s rule: decode.induct)
  case 1
  then show ?case by (simp add: runes_def)
next
  case (2 c cs)
  obtain r' w where rw: "utf8_DecodeRuneInString (c # cs) = (r', w)"
    by (cases "utf8_DecodeRuneInString (c # cs)")
  from "2.prems" have "r = r' \<or> r \<in> set (runes (drop (w - 1) cs))"
    by (simp add: runes_Cons [OF rw])
  then show ?case
  proof
    assume "r = r'"
    then show ?thesis using decode_valid [OF rw] by simp
  next
    assume "r \<in> set (runes (drop (w - 1) cs))"
    then show ?thesis using "2.IH" [of "(r', w)" r' w] rw by simp
  qed
qed

lemma runes_length: "length (runes s) \<le> length s"
proof (induction s rule: decode.induct)
  case 1
  show ?case by (simp add: runes_def)
next
  case (2 c cs)
  obtain r w where rw: "utf8_DecodeRuneInString (c # cs) = (r, w)"
    by (cases "utf8_DecodeRuneInString (c # cs)")
  have "length (runes (drop (w - 1) cs)) \<le> length (drop (w - 1) cs)"
    using "2.IH" [of "(r, w)" r w] rw by simp
  then show ?case by (simp add: runes_Cons [OF rw])
qed

lemma roundtrip1:
  assumes "r \<le> 0x7F"
  shows "utf8_DecodeRuneInString (utf8_EncodeRune r @ rest) = (r, 1)"
  using assms by (simp add: utf8_EncodeRune_def decode_rune runeSize_def Let_def)

lemma roundtrip2:
  assumes "0x80 \<le> r" "r \<le> 0x7FF"
  shows "utf8_DecodeRuneInString (utf8_EncodeRune r @ rest) = (r, 2)"
proof -
  define a b where "a = r div 64" and "b = r mod 64"
  have r: "r = a * 64 + b" and b: "b < 64" and a: "2 \<le> a" "a \<le> 31"
    using assms unfolding a_def b_def by simp_all
  have enc: "utf8_EncodeRune r = [char_of (0xC0 + a), char_of (0x80 + b)]"
    using assms by (simp add: utf8_EncodeRune_def a_def b_def)
  have b0: "byte (char_of (0xC0 + a)) = 0xC0 + a" using a by simp
  have b1: "byte (char_of (0x80 + b)) = 0x80 + b" using b by simp
  show ?thesis unfolding enc using a b
    by (simp add: decode_rune runeSize_def Let_def acceptLo_def acceptHi_def r b0 b1
          del: of_char_of)
qed

lemma roundtrip3:
  assumes "0x800 \<le> r" "r \<le> 0xFFFF" "r < 0xD800 \<or> 0xE000 \<le> r"
  shows "utf8_DecodeRuneInString (utf8_EncodeRune r @ rest) = (r, 3)"
proof -
  define a b c where "a = r div 4096" and "b = r div 64 mod 64" and "c = r mod 64"
  have a': "a = r div 64 div 64"
    unfolding a_def by (simp add: div_mult2_eq [symmetric])
  have "r div 64 = a * 64 + b"
    unfolding a' b_def by simp
  moreover have "r = r div 64 * 64 + c"
    unfolding c_def by simp
  ultimately have r: "r = a * 4096 + b * 64 + c"
    by simp
  have bnd: "a \<le> 15" "b < 64" "c < 64"
    using assms unfolding a_def b_def c_def by simp_all
  have lo: "a = 0 \<Longrightarrow> 32 \<le> b" and hi: "a = 13 \<Longrightarrow> b < 32"
    using assms r bnd by auto
  have enc: "utf8_EncodeRune r = [char_of (0xE0 + a), char_of (0x80 + b), char_of (0x80 + c)]"
    using assms by (auto simp add: utf8_EncodeRune_def a_def b_def c_def)
  have b0: "byte (char_of (0xE0 + a)) = 0xE0 + a" using bnd by simp
  have b1: "byte (char_of (0x80 + b)) = 0x80 + b" using bnd by simp
  have b2: "byte (char_of (0x80 + c)) = 0x80 + c" using bnd by simp
  show ?thesis unfolding enc using bnd lo hi
    by (auto simp add: decode_rune runeSize_def Let_def acceptLo_def acceptHi_def r b0 b1 b2
          simp del: of_char_of)
qed

lemma roundtrip4:
  assumes "0x10000 \<le> r" "r \<le> 0x10FFFF"
  shows "utf8_DecodeRuneInString (utf8_EncodeRune r @ rest) = (r, 4)"
proof -
  define a b c d where "a = r div 262144" and "b = r div 4096 mod 64"
    and "c = r div 64 mod 64" and "d = r mod 64"
  have a': "a = r div 64 div 64 div 64"
    unfolding a_def by (simp add: div_mult2_eq [symmetric])
  have b': "b = r div 64 div 64 mod 64"
    unfolding b_def by (simp add: div_mult2_eq [symmetric])
  have "r div 64 div 64 = a * 64 + b"
    unfolding a' b' by simp
  moreover have "r div 64 = r div 64 div 64 * 64 + c"
    unfolding c_def by simp
  moreover have "r = r div 64 * 64 + d"
    unfolding d_def by simp
  ultimately have r: "r = a * 262144 + b * 4096 + c * 64 + d"
    by simp
  have bnd: "a \<le> 4" "b < 64" "c < 64" "d < 64"
    using assms unfolding a_def b_def c_def d_def by simp_all
  have lo: "a = 0 \<Longrightarrow> 16 \<le> b" and hi: "a = 4 \<Longrightarrow> b < 16"
    using assms r bnd by auto
  have enc: "utf8_EncodeRune r =
      [char_of (0xF0 + a), char_of (0x80 + b), char_of (0x80 + c), char_of (0x80 + d)]"
    using assms by (auto simp add: utf8_EncodeRune_def a_def b_def c_def d_def)
  have b0: "byte (char_of (0xF0 + a)) = 0xF0 + a" using bnd by simp
  have b1: "byte (char_of (0x80 + b)) = 0x80 + b" using bnd by simp
  have b2: "byte (char_of (0x80 + c)) = 0x80 + c" using bnd by simp
  have b3: "byte (char_of (0x80 + d)) = 0x80 + d" using bnd by simp
  show ?thesis unfolding enc using bnd lo hi
    by (auto simp add: decode_rune runeSize_def Let_def acceptLo_def acceptHi_def r b0 b1 b2 b3
          simp del: of_char_of)
qed

lemma roundtrip:
  assumes "validRune r"
  shows "fst (utf8_DecodeRuneInString (utf8_EncodeRune r)) = r"
proof -
  consider "r \<le> 0x7F" | "0x80 \<le> r \<and> r \<le> 0x7FF"
    | "0x800 \<le> r \<and> r \<le> 0xFFFF \<and> (r < 0xD800 \<or> 0xE000 \<le> r)"
    | "0x10000 \<le> r \<and> r \<le> 0x10FFFF"
    using assms unfolding validRune_def by linarith
  then show ?thesis
  proof cases
    case 1 then show ?thesis using roundtrip1 [of r "[]"] by simp
  next
    case 2 then show ?thesis using roundtrip2 [of r "[]"] by simp
  next
    case 3 then show ?thesis using roundtrip3 [of r "[]"] by simp
  next
    case 4 then show ?thesis using roundtrip4 [of r "[]"] by simp
  qed
qed

lemma encode_inj:
  assumes "validRune r" and "validRune r'" and eq: "utf8_EncodeRune r = utf8_EncodeRune r'"
  shows "r = r'"
proof -
  have "r = fst (utf8_DecodeRuneInString (utf8_EncodeRune r))"
    using assms(1) by (simp only: roundtrip)
  also have "\<dots> = fst (utf8_DecodeRuneInString (utf8_EncodeRune r'))"
    by (simp only: eq)
  also have "\<dots> = r'"
    using assms(2) by (simp only: roundtrip)
  finally show ?thesis .
qed

lemma encode_inj_on_runes: "inj_on utf8_EncodeRune (set (runes s))"
  by (rule inj_onI) (auto intro: encode_inj runes_valid)


lemma fold_update_distinct:
  "distinct (map fst m) \<Longrightarrow>
   distinct (map fst (fold (\<lambda>char charSet. AList.update char True charSet) xs m))"
  by (induction xs arbitrary: m) (simp_all add: distinct_update)

lemma fold_update_keys:
  "fst ` set (fold (\<lambda>char charSet. AList.update char True charSet) xs m) = set xs \<union> fst ` set m"
  by (induction xs arbitrary: m) (auto simp: dom_update)

lemma countUniqueCharacters_card: "countUniqueCharacters s = int (card (set (runes s)))"
proof -
  let ?m = "fold (\<lambda>char charSet. AList.update char True charSet) (runes s) []"
  have d: "distinct (map fst ?m)" by (rule fold_update_distinct) simp
  have "length ?m = length (map fst ?m)" by simp
  also have "\<dots> = card (set (map fst ?m))" using d by (simp only: distinct_card)
  also have "set (map fst ?m) = set (runes s)" using fold_update_keys [of "runes s" "[]"] by simp
  finally show ?thesis by (simp add: countUniqueCharacters_def Let_def)
qed

lemma getCount_update:
  "getCount (AList.update k v m) key = (if key = k then v else getCount m key)"
  by (simp add: getCount_def update_conv')

lemma fold_frequency:
  "map_of (fold (\<lambda>x m. AList.update (k x) (getCount m (k x) + 1) m) xs m0) key =
     (if key \<in> k ` set xs
      then Some (getCount m0 key + int (length (filter (\<lambda>x. k x = key) xs)))
      else map_of m0 key)"
proof (induction xs arbitrary: m0)
  case Nil
  show ?case by simp
next
  case (Cons x xs)
  let ?m1 = "AList.update (k x) (getCount m0 (k x) + 1) m0"
  have "map_of (fold (\<lambda>x m. AList.update (k x) (getCount m (k x) + 1) m) (x # xs) m0) key =
        map_of (fold (\<lambda>x m. AList.update (k x) (getCount m (k x) + 1) m) xs ?m1) key"
    by simp
  also have "\<dots> = (if key \<in> k ` set xs
      then Some (getCount ?m1 key + int (length (filter (\<lambda>x. k x = key) xs)))
      else map_of ?m1 key)"
    by (rule Cons.IH)
  also have "\<dots> = (if key \<in> k ` set (x # xs)
      then Some (getCount m0 key + int (length (filter (\<lambda>x. k x = key) (x # xs))))
      else map_of m0 key)"
    by (auto simp: getCount_update update_conv' filter_empty_conv image_iff)
  finally show ?case .
qed

lemma frequency_lookup:
  "map_of (getCharacterFrequency s) key =
     (if key \<in> utf8_EncodeRune ` set (runes s)
      then Some (int (length (filter (\<lambda>r. utf8_EncodeRune r = key) (runes s))))
      else None)"
  unfolding getCharacterFrequency_def fold_frequency
  by (simp add: getCount_def)

lemma frequency_of_rune:
  assumes "r \<in> set (runes s)"
  shows "map_of (getCharacterFrequency s) (utf8_EncodeRune r) = Some (int (count_list (runes s) r))"
proof -
  have "filter (\<lambda>x. utf8_EncodeRune x = utf8_EncodeRune r) (runes s) = filter ((=) r) (runes s)"
  proof (rule filter_cong [OF refl])
    fix x assume "x \<in> set (runes s)"
    then show "(utf8_EncodeRune x = utf8_EncodeRune r) = (r = x)"
      using assms encode_inj [of x r] runes_valid by blast
  qed
  then show ?thesis
    using assms by (simp add: frequency_lookup count_list_eq_length_filter)
qed

lemma frequency_keys:
  "fst ` set (getCharacterFrequency s) = utf8_EncodeRune ` set (runes s)"
proof -
  have "fst ` set (getCharacterFrequency s) = dom (map_of (getCharacterFrequency s))"
    by (simp add: dom_map_of_conv_image_fst)
  also have "\<dots> = utf8_EncodeRune ` set (runes s)"
    by (auto simp: dom_def frequency_lookup split: if_splits)
  finally show ?thesis .
qed


lemma runes_e_acute: "runes [CHR 0xC3, CHR 0xA9] = [0xE9]"
  by (simp add: runes_def decode_rune runeSize_def Let_def acceptLo_def acceptHi_def)

lemma encode_e_acute: "utf8_EncodeRune 0xE9 = [CHR 0xC3, CHR 0xA9]"
  by (simp add: utf8_EncodeRune_def char_of_def bit_0)

lemma frequency_e_acute:
  "getCharacterFrequency [CHR 0xC3, CHR 0xA9] = [([CHR 0xC3, CHR 0xA9], 1)]"
  by (simp add: getCharacterFrequency_def runes_e_acute encode_e_acute getCount_def)

text \<open>Claim C10. For every string the stored \<open>Length\<close> is its number of bytes, while
  \<open>unique_characters\<close> is the number of distinct code points and the frequency map has
  one key for each code point (its encoding), holding the number of its occurrences. So
  the number of characters never exceeds \<open>Length\<close>, and for the two bytes of "e acute"
  the length is 2 while one character is counted, once.\<close>

theorem analyzeString_counts:
  "Length (analyzeString h t s) = int (length s)
   \<and> UniqueCharacters (analyzeString h t s) = int (card (set (runes s)))
   \<and> (\<forall>r \<in> set (runes s).
         map_of (CharacterFrequencyMap (analyzeString h t s)) (utf8_EncodeRune r) =
           Some (int (count_list (runes s) r)))
   \<and> fst ` set (CharacterFrequencyMap (analyzeString h t s)) = utf8_EncodeRune ` set (runes s)
   \<and> inj_on utf8_EncodeRune (set (runes s))
   \<and> UniqueCharacters (analyzeString h t s) \<le> Length (analyzeString h t s)
   \<and> Length (analyzeString h t [CHR 0xC3, CHR 0xA9]) = 2
   \<and> UniqueCharacters (analyzeString h t [CHR 0xC3, CHR 0xA9]) = 1
   \<and> CharacterFrequencyMap (analyzeString h t [CHR 0xC3, CHR 0xA9]) = [([CHR 0xC3, CHR 0xA9], 1)]"
proof -
  have "card (set (runes s)) \<le> length (runes s)" by (rule card_length)
  also have "\<dots> \<le> length s" by (rule runes_length)
  finally have le: "card (set (runes s)) \<le> length s" .
  have u: "countUniqueCharacters [CHR 0xC3, CHR 0xA9] = 1"
    by (simp add: countUniqueCharacters_card runes_e_acute)
  show ?thesis
    using le u
    by (simp add: analyzeString_def countUniqueCharacters_card frequency_of_rune frequency_keys
          encode_inj_on_runes frequency_e_acute)
qed

theorem analyzeString_counts_witness:
  "233 \<in> set (runes [CHR 0xC3, CHR 0xA9, CHR ''a'', CHR 0xC3, CHR 0xA9])
   \<and> map_of (CharacterFrequencyMap
         (analyzeString id id [CHR 0xC3, CHR 0xA9, CHR ''a'', CHR 0xC3, CHR 0xA9]))
       (utf8_EncodeRune 233) = Some 2
   \<and> Length (analyzeString id id [CHR 0xC3, CHR 0xA9, CHR ''a'', CHR 0xC3, CHR 0xA9]) = 5
   \<and> UniqueCharacters (analyzeString id id [CHR 0xC3, CHR 0xA9, CHR ''a'', CHR 0xC3, CHR 0xA9]) = 2"
proof -
  let ?s = "[CHR 0xC3, CHR 0xA9, CHR ''a'', CHR 0xC3, CHR 0xA9]"
  have r: "runes ?s = [233, 97, 233]"
    by (simp add: runes_def decode_rune runeSize_def Let_def acceptLo_def acceptHi_def)
  have m: "233 \<in> set (runes ?s)" by (simp add: r)
  note c = analyzeString_counts [of id id ?s]
  from c have "\<forall>r \<in> set (runes ?s).
         map_of (CharacterFrequencyMap (analyzeString id id ?s)) (utf8_EncodeRune r) =
           Some (int (count_list (runes ?s) r))" by blast
  with m have "map_of (CharacterFrequencyMap (analyzeString id id ?s)) (utf8_EncodeRune 233) =
           Some (int (count_list (runes ?s) 233))" by blast
  then have f: "map_of (CharacterFrequencyMap (analyzeString id id ?s)) (utf8_EncodeRune 233) = Some 2"
    by (simp add: r)
  from c have l: "Length (analyzeString id id ?s) = 5" by simp
  from c have "UniqueCharacters (analyzeString id id ?s) = int (card (set (runes ?s)))" by blast
  then have u: "UniqueCharacters (analyzeString id id ?s) = 2" by (simp add: r card_insert_if)
  from m f l u show ?thesis by blast
qed

section \<open>The regular expressions match what the patterns say\<close>








lemma takeWhile_Nil_iff: "takeWhile P xs = [] \<longleftrightarrow> (xs = [] \<or> \<not> P (hd xs))"
  by (cases xs) auto


lemma thanRegex_result:
  assumes "thanRegex kw s \<noteq> []"
  shows "\<exists>ds. ds \<noteq> [] \<and> list_all isDigit ds \<and> thanRegex kw s = [kw @ ds, ds]"
proof -
  let ?ds = "takeWhile isDigit (drop (length kw) s)"
  from assms have "?ds \<noteq> []" "thanRegex kw s = [kw @ ?ds, ?ds]"
    by (auto simp: thanRegex_def Let_def split: if_splits)
  moreover have "list_all isDigit ?ds"
    by (simp add: list_all_iff) (meson set_takeWhileD)
  ultimately show ?thesis by blast
qed


lemma Find_result:
  "FindStringSubmatch re s \<noteq> [] \<Longrightarrow>
   \<exists>suf. suffix suf s \<and> FindStringSubmatch re s = re suf \<and> re suf \<noteq> []"
proof (induction s)
  case Nil
  then show ?case by auto
next
  case (Cons c cs)
  show ?case
  proof (cases "re (c # cs) \<noteq> []")
    case True
    then show ?thesis by (intro exI [of _ "c # cs"]) simp
  next
    case False
    then have eq: "FindStringSubmatch re (c # cs) = FindStringSubmatch re cs" by simp
    with Cons.prems have "FindStringSubmatch re cs \<noteq> []" by simp
    from Cons.IH [OF this] obtain suf where
      "suffix suf cs" "FindStringSubmatch re cs = re suf" "re suf \<noteq> []" by blast
    then show ?thesis unfolding eq by (intro exI [of _ suf]) (simp add: suffix_Cons)
  qed
qed






section \<open>Natural-language translator\<close>












lemmas parse_eval = parseNaturalLanguageQuery_def checkPalindrome_def checkWordCount_def
  checkLongerThan_def checkShorterThan_def checkContains_def checkFirstVowel_def
  longerThanRegex_def shorterThanRegex_def thanRegex_def containsRegex_def containsMatches_def
  lit_def lowerLetter_def isDigit_def strconv_Atoi_def strconv_ParseUint_def maxUint64_def
  int64_def strings_ToLower_def lowerByte_def char_of_def bit_0 Let_def





lemma map_of_update_other: "k' \<noteq> k \<Longrightarrow> map_of (AList.update k v al) k' = map_of al k'"
  by (simp add: update_conv')

lemma word_count_kept:
  "map_of (checkLongerThan lq f) ''word_count'' = map_of f ''word_count''"
  "map_of (checkShorterThan lq f) ''word_count'' = map_of f ''word_count''"
  "map_of (checkContains lq f) ''word_count'' = map_of f ''word_count''"
  "map_of (checkFirstVowel lq f) ''word_count'' = map_of f ''word_count''"
  by (simp_all add: checkLongerThan_def checkShorterThan_def checkContains_def
        checkFirstVowel_def Let_def map_of_update_other)

lemma single_word_first:
  "sublist ''single word'' lq \<Longrightarrow> map_of (checkWordCount lq f) ''word_count'' = Some (IntVal 1)"
  by (simp add: checkWordCount_def strings_Contains_sublist update_conv')

lemma parse_single_word:
  assumes "sublist ''single word'' (strings_ToLower t q)"
  shows "\<exists>filters. parseNaturalLanguageQuery t q = Inr filters
           \<and> map_of filters ''word_count'' = Some (IntVal 1)"
proof -
  let ?lq = "strings_ToLower t q"
  let ?f = "checkFirstVowel ?lq (checkContains ?lq (checkShorterThan ?lq (checkLongerThan ?lq
              (checkWordCount ?lq (checkPalindrome ?lq [])))))"
  have m: "map_of ?f ''word_count'' = Some (IntVal 1)"
    by (simp only: word_count_kept single_word_first [OF assms])
  then have "?f \<noteq> []" by auto
  then have "parseNaturalLanguageQuery t q = Inr ?f"
    by (simp add: parseNaturalLanguageQuery_def Let_def)
  with m show ?thesis by blast
qed

lemma parse_single_word_palindromic:
  "parseNaturalLanguageQuery t ''all single word palindromic strings'' =
     Inr [(''is_palindrome'', BoolVal True), (''word_count'', IntVal 1)]"
  by (simp add: parse_eval split del: if_split)

lemma matches_palindrome_one_word:
  "matchesNaturalFilters t d [(''is_palindrome'', BoolVal True), (''word_count'', IntVal 1)] =
     (IsPalindrome (Properties d) \<and> WordCount (Properties d) = 1)"
  by (auto simp: matchesNaturalFilters_def asBool_def asInt_def asString_def)

text \<open>Claim C4. "all single word palindromic strings" translates to exactly the filters
  \<open>is_palindrome = true\<close> and \<open>word_count = 1\<close>; a query with both phrases "single
  word" and "two word" gets \<open>word_count = 1\<close>; and filtering the store by that query
  returns exactly the stored records that are palindromes with word count 1.\<close>

theorem single_word_palindromes:
  "parseNaturalLanguageQuery caseTable ''all single word palindromic strings'' =
     Inr [(''is_palindrome'', BoolVal True), (''word_count'', IntVal 1)]
   \<and> (sublist ''single word'' (strings_ToLower caseTable query)
          \<and> sublist ''two word'' (strings_ToLower caseTable query) \<longrightarrow>
        (\<exists>filters. parseNaturalLanguageQuery caseTable query = Inr filters
           \<and> map_of filters ''word_count'' = Some (IntVal 1)))
   \<and> filterByNaturalLanguage caseTable ''all single word palindromic strings'' storage =
       NaturalResponse StatusOK
         \<lparr> Data = filter (\<lambda>d. IsPalindrome (Properties d) \<and> WordCount (Properties d) = 1)
                    (map snd storage),
           Count = int (length (filter (\<lambda>d. IsPalindrome (Properties d)
                                            \<and> WordCount (Properties d) = 1) (map snd storage))),
           Interpreted =
             \<lparr> Original = ''all single word palindromic strings'',
               ParsedFilters = [(''is_palindrome'', BoolVal True), (''word_count'', IntVal 1)] \<rparr> \<rparr>"
proof (intro conjI impI)
  show "parseNaturalLanguageQuery caseTable ''all single word palindromic strings'' =
     Inr [(''is_palindrome'', BoolVal True), (''word_count'', IntVal 1)]"
    by (rule parse_single_word_palindromic)
next
  assume "sublist ''single word'' (strings_ToLower caseTable query)
          \<and> sublist ''two word'' (strings_ToLower caseTable query)"
  then have "sublist ''single word'' (strings_ToLower caseTable query)" by (rule conjunct1)
  then show "\<exists>filters. parseNaturalLanguageQuery caseTable query = Inr filters
           \<and> map_of filters ''word_count'' = Some (IntVal 1)"
    by (rule parse_single_word)
next
  show "filterByNaturalLanguage caseTable ''all single word palindromic strings'' storage =
       NaturalResponse StatusOK
         \<lparr> Data = filter (\<lambda>d. IsPalindrome (Properties d) \<and> WordCount (Properties d) = 1)
                    (map snd storage),
           Count = int (length (filter (\<lambda>d. IsPalindrome (Properties d)
                                            \<and> WordCount (Properties d) = 1) (map snd storage))),
           Interpreted =
             \<lparr> Original = ''all single word palindromic strings'',
               ParsedFilters = [(''is_palindrome'', BoolVal True), (''word_count'', IntVal 1)] \<rparr> \<rparr>"
    unfolding filterByNaturalLanguage_def parse_single_word_palindromic
    by (simp add: matches_palindrome_one_word Let_def)
qed

theorem single_word_palindromes_witness:
  "sublist ''single word'' (strings_ToLower id ''single word or two word'')
   \<and> sublist ''two word'' (strings_ToLower id ''single word or two word'')
   \<and> (\<exists>filters. parseNaturalLanguageQuery id ''single word or two word'' = Inr filters
          \<and> map_of filters ''word_count'' = Some (IntVal 1))"
proof -
  let ?q = "''single word or two word''"
  have lq: "strings_ToLower id ?q = ?q"
    by (simp add: strings_ToLower_def lowerByte_def)
  have 1: "sublist ''single word'' (strings_ToLower id ?q)"
    unfolding lq strings_Contains_sublist [symmetric] by simp
  have 2: "sublist ''two word'' (strings_ToLower id ?q)"
    unfolding lq strings_Contains_sublist [symmetric] by simp
  from 1 2 single_word_palindromes [of id ?q] show ?thesis by blast
qed

section \<open>Numbers the translator produces\<close>

text \<open>Claim C1 says that "longer than N" gives \<open>min_length = N + 1\<close> and "shorter than N"
  gives \<open>max_length = N - 1\<close> for every decimal integer N. The parser drops the error of
  \<open>strconv.Atoi\<close> and adds 1 in 64 bits: for \<open>N = 9223372036854775807\<close> the sum
  wraps to the least integer, and a number past that is first cut down to it. The
  structured endpoint refuses such a number.\<close>

theorem longer_than_overflow:
  "parseNaturalLanguageQuery caseTable ''strings longer than 9223372036854775807'' =
     Inr [(''min_length'', IntVal (- 9223372036854775808))]
   \<and> parseNaturalLanguageQuery caseTable ''strings longer than 99999999999999999999'' =
     Inr [(''min_length'', IntVal (- 9223372036854775808))]
   \<and> parseNaturalLanguageQuery caseTable ''strings shorter than 99999999999999999999'' =
     Inr [(''max_length'', IntVal 9223372036854775806)]
   \<and> getAllStrings caseTable [] ''99999999999999999999'' [] [] [] storage =
     ErrorResponse StatusBadRequest ''Invalid value for min_length''"
proof (intro conjI)
  show "parseNaturalLanguageQuery caseTable ''strings longer than 9223372036854775807'' =
     Inr [(''min_length'', IntVal (- 9223372036854775808))]"
    by (simp add: parse_eval split del: if_split)
  show "parseNaturalLanguageQuery caseTable ''strings longer than 99999999999999999999'' =
     Inr [(''min_length'', IntVal (- 9223372036854775808))]"
    by (simp add: parse_eval split del: if_split)
  show "parseNaturalLanguageQuery caseTable ''strings shorter than 99999999999999999999'' =
     Inr [(''max_length'', IntVal 9223372036854775806)]"
    by (simp add: parse_eval split del: if_split)
  have "strconv_Atoi ''99999999999999999999'' = (9223372036854775807, Some ErrRange)"
    by (simp add: strconv_Atoi_def strconv_ParseUint_def isDigit_def maxUint64_def
          split del: if_split)
  then show "getAllStrings caseTable [] ''99999999999999999999'' [] [] [] storage =
     ErrorResponse StatusBadRequest ''Invalid value for min_length''"
    by (simp add: getAllStrings_def)
qed

theorem longer_than_overflow_witness:
  "parseNaturalLanguageQuery id ''strings longer than 9223372036854775807'' =
     Inr [(''min_length'', IntVal (- 9223372036854775808))]
   \<and> getAllStrings id [] ''99999999999999999999'' [] [] [] [] =
     ErrorResponse StatusBadRequest ''Invalid value for min_length''"
  using longer_than_overflow [of id "[]"] by blast

text \<open>What \<open>strconv.Atoi\<close> returns on the digits of a match, and the number each
  length check writes.\<close>

lemma horner_ge: "n \<le> foldl (\<lambda>n c. n * 10 + (byte c - 0x30)) n ds"
proof (induction ds arbitrary: n)
  case Nil
  show ?case by simp
next
  case (Cons c cs)
  have "n \<le> n * 10 + (byte c - 0x30)" by simp
  also have "\<dots> \<le> foldl (\<lambda>n c. n * 10 + (byte c - 0x30)) (n * 10 + (byte c - 0x30)) cs"
    by (rule Cons.IH)
  finally show ?case by simp
qed

lemma parseUintLoop_digits:
  assumes "list_all isDigit ds" and "n \<le> maxUint64"
  shows "parseUintLoop ds n =
     (if foldl (\<lambda>n c. n * 10 + (byte c - 0x30)) n ds \<le> maxUint64
      then (foldl (\<lambda>n c. n * 10 + (byte c - 0x30)) n ds, None)
      else (maxUint64, Some ErrRange))"
  using assms
proof (induction ds arbitrary: n)
  case Nil
  then show ?case by simp
next
  case (Cons c cs)
  let ?f = "\<lambda>n c. n * 10 + (byte c - 0x30)"
  define n1 where "n1 = n * 10 + (byte c - 0x30)"
  from Cons.prems have d: "isDigit c" and cs: "list_all isDigit cs" by simp_all
  have step: "parseUintLoop (c # cs) n =
      (if n \<ge> maxUint64 div 10 + 1 then (maxUint64, Some ErrRange)
       else if n1 > maxUint64 then (maxUint64, Some ErrRange)
       else parseUintLoop cs n1)"
    unfolding n1_def using d by (simp add: Let_def)
  have fold: "foldl ?f n (c # cs) = foldl ?f n1 cs"
    unfolding n1_def by simp
  have ge: "n1 \<le> foldl ?f n1 cs" by (rule horner_ge)
  show ?case
  proof (cases "n \<ge> maxUint64 div 10 + 1")
    case True
    then have "maxUint64 < n1" unfolding n1_def by (simp add: maxUint64_def)
    with ge have "\<not> foldl ?f n1 cs \<le> maxUint64" by simp
    with True show ?thesis unfolding step fold by simp
  next
    case small: False
    show ?thesis
    proof (cases "n1 > maxUint64")
      case True
      with ge have "\<not> foldl ?f n1 cs \<le> maxUint64" by simp
      with True small show ?thesis unfolding step fold by simp
    next
      case False
      then have "n1 \<le> maxUint64" by simp
      from Cons.IH [OF cs this] False small show ?thesis unfolding step fold by simp
    qed
  qed
qed

lemma digit_not_sign: "isDigit c \<Longrightarrow> c \<noteq> CHR ''+'' \<and> c \<noteq> CHR ''-''"
  by (auto simp: isDigit_def)

lemma Atoi_digits:
  assumes "ds \<noteq> []" and "list_all isDigit ds"
  shows "strconv_Atoi ds =
     (if decimal ds < 2 ^ 63 then (int (decimal ds), None) else (2 ^ 63 - 1, Some ErrRange))"
proof -
  from assms have "isDigit (hd ds)" by (cases ds) simp_all
  then have sign: "hd ds \<noteq> CHR ''+''" "hd ds \<noteq> CHR ''-''"
    using digit_not_sign by blast+
  have pu: "strconv_ParseUint ds =
     (if decimal ds \<le> maxUint64 then (decimal ds, None) else (maxUint64, Some ErrRange))"
    using assms parseUintLoop_digits [of ds 0]
    by (simp add: strconv_ParseUint_def decimal_def)
  show ?thesis
    using assms(1) sign
    by (simp add: strconv_Atoi_def pu maxUint64_def)
qed


lemma Find_than_shape:
  assumes "FindStringSubmatch (thanRegex kw) s \<noteq> []"
  shows "\<exists>ds. ds \<noteq> [] \<and> list_all isDigit ds \<and> FindStringSubmatch (thanRegex kw) s = [kw @ ds, ds]"
proof -
  from Find_result [OF assms] obtain suf where
    eq: "FindStringSubmatch (thanRegex kw) s = thanRegex kw suf" and ne: "thanRegex kw suf \<noteq> []"
    by blast
  from thanRegex_result [OF ne] show ?thesis unfolding eq .
qed

lemma int64_id: "- (2 ^ 63) \<le> x \<Longrightarrow> x < 2 ^ 63 \<Longrightarrow> int64 x = x"
  by (simp add: int64_def)

lemma Atoi_digits_range:
  assumes "ds \<noteq> []" and "list_all isDigit ds"
  shows "0 \<le> fst (strconv_Atoi ds) \<and> fst (strconv_Atoi ds) \<le> 2 ^ 63 - 1
         \<and> (decimal ds < 2 ^ 63 \<longrightarrow> fst (strconv_Atoi ds) = int (decimal ds))"
  by (simp add: Atoi_digits [OF assms])

lemma checkShorterThan_cases:
  "checkShorterThan lq f = f
   \<or> (\<exists>ds n. ds \<noteq> [] \<and> list_all isDigit ds
         \<and> FindStringSubmatch shorterThanRegex lq = [''shorter than '' @ ds, ds]
         \<and> - 1 \<le> n \<and> (decimal ds < 2 ^ 63 \<longrightarrow> n = int (decimal ds) - 1)
         \<and> checkShorterThan lq f = AList.update ''max_length'' (IntVal n) f)"
proof (cases "FindStringSubmatch shorterThanRegex lq = []")
  case True
  then show ?thesis by (simp add: checkShorterThan_def)
next
  case False
  then obtain ds where ds: "ds \<noteq> []" "list_all isDigit ds"
    and m: "FindStringSubmatch shorterThanRegex lq = [''shorter than '' @ ds, ds]"
    unfolding shorterThanRegex_def using Find_than_shape by blast
  define len where "len = fst (strconv_Atoi ds)"
  from Atoi_digits_range [OF ds] have r: "0 \<le> len" "len \<le> 2 ^ 63 - 1"
    and v: "decimal ds < 2 ^ 63 \<longrightarrow> len = int (decimal ds)"
    unfolding len_def by blast+
  from r have w: "int64 (len - 1) = len - 1" by (intro int64_id) simp_all
  have c: "checkShorterThan lq f = AList.update ''max_length'' (IntVal (len - 1)) f"
    unfolding checkShorterThan_def m by (simp add: Let_def len_def [symmetric] w)
  have "- 1 \<le> len - 1" using r by simp
  moreover have "decimal ds < 2 ^ 63 \<longrightarrow> len - 1 = int (decimal ds) - 1" using v by simp
  ultimately show ?thesis using ds m c by blast
qed

lemma checkLongerThan_cases:
  "checkLongerThan lq f = f
   \<or> (\<exists>ds n. ds \<noteq> [] \<and> list_all isDigit ds
         \<and> FindStringSubmatch longerThanRegex lq = [''longer than '' @ ds, ds]
         \<and> (decimal ds \<le> 2 ^ 63 - 2 \<longrightarrow> n = int (decimal ds) + 1)
         \<and> checkLongerThan lq f = AList.update ''min_length'' (IntVal n) f)"
proof (cases "FindStringSubmatch longerThanRegex lq = []")
  case True
  then show ?thesis by (simp add: checkLongerThan_def)
next
  case False
  then obtain ds where ds: "ds \<noteq> []" "list_all isDigit ds"
    and m: "FindStringSubmatch longerThanRegex lq = [''longer than '' @ ds, ds]"
    unfolding longerThanRegex_def using Find_than_shape by blast
  define len where "len = fst (strconv_Atoi ds)"
  from Atoi_digits_range [OF ds] have r: "0 \<le> len" "len \<le> 2 ^ 63 - 1"
    and v: "decimal ds < 2 ^ 63 \<longrightarrow> len = int (decimal ds)"
    unfolding len_def by blast+
  have c: "checkLongerThan lq f = AList.update ''min_length'' (IntVal (int64 (len + 1))) f"
    unfolding checkLongerThan_def m by (simp add: Let_def len_def [symmetric])
  have "decimal ds \<le> 2 ^ 63 - 2 \<longrightarrow> int64 (len + 1) = int (decimal ds) + 1"
  proof
    assume le: "decimal ds \<le> 2 ^ 63 - 2"
    then have "decimal ds < 2 ^ 63" by simp
    with v have l: "len = int (decimal ds)" by simp
    from le have "int (decimal ds) \<le> int (2 ^ 63 - 2)" by (simp only: of_nat_le_iff)
    also have "int (2 ^ 63 - 2) = 2 ^ 63 - 2" by simp
    finally have "int (decimal ds) \<le> 2 ^ 63 - 2" .
    with l have "len + 1 < 2 ^ 63" by simp
    with r have "int64 (len + 1) = len + 1" by (intro int64_id) simp_all
    with l show "int64 (len + 1) = int (decimal ds) + 1" by simp
  qed
  with ds m c show ?thesis by blast
qed


lemma check_other_keys:
  "k \<noteq> ''is_palindrome'' \<Longrightarrow> map_of (checkPalindrome lq f) k = map_of f k"
  "k \<noteq> ''word_count'' \<Longrightarrow> map_of (checkWordCount lq f) k = map_of f k"
  "k \<noteq> ''min_length'' \<Longrightarrow> map_of (checkLongerThan lq f) k = map_of f k"
  "k \<noteq> ''max_length'' \<Longrightarrow> map_of (checkShorterThan lq f) k = map_of f k"
  "k \<noteq> ''contains_character'' \<Longrightarrow> map_of (checkContains lq f) k = map_of f k"
  "k \<noteq> ''contains_character'' \<Longrightarrow> map_of (checkFirstVowel lq f) k = map_of f k"
  by (simp_all add: checkPalindrome_def checkWordCount_def checkLongerThan_def
        checkShorterThan_def checkContains_def checkFirstVowel_def Let_def map_of_update_other)

lemma word_count_value:
  "map_of f ''word_count'' = None \<Longrightarrow> map_of (checkWordCount lq f) ''word_count'' = Some v \<Longrightarrow>
   v = IntVal 1 \<or> v = IntVal 2"
  by (auto simp: checkWordCount_def update_conv' split: if_splits)

lemma max_length_value:
  assumes "map_of f ''max_length'' = None"
    and "map_of (checkShorterThan lq f) ''max_length'' = Some v"
  shows "\<exists>ds n. ds \<noteq> [] \<and> list_all isDigit ds
           \<and> FindStringSubmatch shorterThanRegex lq = [''shorter than '' @ ds, ds]
           \<and> v = IntVal n \<and> - 1 \<le> n \<and> (decimal ds < 2 ^ 63 \<longrightarrow> n = int (decimal ds) - 1)"
  using checkShorterThan_cases [of lq f]
proof
  assume "checkShorterThan lq f = f"
  with assms show ?thesis by simp
next
  assume "\<exists>ds n. ds \<noteq> [] \<and> list_all isDigit ds
         \<and> FindStringSubmatch shorterThanRegex lq = [''shorter than '' @ ds, ds]
         \<and> - 1 \<le> n \<and> (decimal ds < 2 ^ 63 \<longrightarrow> n = int (decimal ds) - 1)
         \<and> checkShorterThan lq f = AList.update ''max_length'' (IntVal n) f"
  then obtain ds n where a: "ds \<noteq> []" "list_all isDigit ds"
      "FindStringSubmatch shorterThanRegex lq = [''shorter than '' @ ds, ds]"
      "- 1 \<le> n" "decimal ds < 2 ^ 63 \<longrightarrow> n = int (decimal ds) - 1"
    and c: "checkShorterThan lq f = AList.update ''max_length'' (IntVal n) f"
    by blast
  from assms(2) have "v = IntVal n" unfolding c by (simp add: update_conv')
  with a show ?thesis by blast
qed

lemma min_length_value:
  assumes "map_of f ''min_length'' = None"
    and "map_of (checkLongerThan lq f) ''min_length'' = Some v"
  shows "\<exists>ds. ds \<noteq> [] \<and> list_all isDigit ds
           \<and> FindStringSubmatch longerThanRegex lq = [''longer than '' @ ds, ds]
           \<and> (decimal ds \<le> 2 ^ 63 - 2 \<longrightarrow> v = IntVal (int (decimal ds) + 1))"
  using checkLongerThan_cases [of lq f]
proof
  assume "checkLongerThan lq f = f"
  with assms show ?thesis by simp
next
  assume "\<exists>ds n. ds \<noteq> [] \<and> list_all isDigit ds
         \<and> FindStringSubmatch longerThanRegex lq = [''longer than '' @ ds, ds]
         \<and> (decimal ds \<le> 2 ^ 63 - 2 \<longrightarrow> n = int (decimal ds) + 1)
         \<and> checkLongerThan lq f = AList.update ''min_length'' (IntVal n) f"
  then obtain ds n where a: "ds \<noteq> []" "list_all isDigit ds"
      "FindStringSubmatch longerThanRegex lq = [''longer than '' @ ds, ds]"
      "decimal ds \<le> 2 ^ 63 - 2 \<longrightarrow> n = int (decimal ds) + 1"
    and c: "checkLongerThan lq f = AList.update ''min_length'' (IntVal n) f"
    by blast
  from assms(2) have "v = IntVal n" unfolding c by (simp add: update_conv')
  with a show ?thesis by blast
qed

lemma parse_Inr_chain:
  "parseNaturalLanguageQuery t q = Inr f \<Longrightarrow>
   f = checkFirstVowel (strings_ToLower t q) (checkContains (strings_ToLower t q)
         (checkShorterThan (strings_ToLower t q) (checkLongerThan (strings_ToLower t q)
           (checkWordCount (strings_ToLower t q) (checkPalindrome (strings_ToLower t q) [])))))"
  by (simp add: parseNaturalLanguageQuery_def Let_def split: if_splits)

text \<open>Claim C3, amended. For every query on which the translation succeeds:
  \<open>word_count\<close> is 1 or 2; \<open>max_length\<close> is an integer not below \<open>-1\<close>, and it is
  \<open>N - 1\<close> for the number N of the leftmost "shorter than N" when N is below \<open>2^63\<close>,
  so it is \<open>-1\<close> for N = 0; \<open>min_length\<close> is \<open>N + 1\<close>, which is at least 1, for the
  number N of the leftmost "longer than N" when N is at most \<open>2^63 - 2\<close>.\<close>

theorem translate_numeric_fields:
  "parseNaturalLanguageQuery caseTable query = Inr filters \<longrightarrow>
     (\<forall>v. map_of filters ''word_count'' = Some v \<longrightarrow> v = IntVal 1 \<or> v = IntVal 2)
     \<and> (\<forall>v. map_of filters ''max_length'' = Some v \<longrightarrow>
           (\<exists>ds n. ds \<noteq> [] \<and> list_all isDigit ds
              \<and> FindStringSubmatch shorterThanRegex (strings_ToLower caseTable query) =
                   [''shorter than '' @ ds, ds]
              \<and> v = IntVal n \<and> - 1 \<le> n
              \<and> (decimal ds < 2 ^ 63 \<longrightarrow> n = int (decimal ds) - 1)))
     \<and> (\<forall>v. map_of filters ''min_length'' = Some v \<longrightarrow>
           (\<exists>ds. ds \<noteq> [] \<and> list_all isDigit ds
              \<and> FindStringSubmatch longerThanRegex (strings_ToLower caseTable query) =
                   [''longer than '' @ ds, ds]
              \<and> (decimal ds \<le> 2 ^ 63 - 2 \<longrightarrow> v = IntVal (int (decimal ds) + 1))))"
proof (intro impI conjI allI)
  let ?lq = "strings_ToLower caseTable query"
  assume p: "parseNaturalLanguageQuery caseTable query = Inr filters"
  note f = parse_Inr_chain [OF p]
  {
    fix v assume "map_of filters ''word_count'' = Some v"
    then have "map_of (checkWordCount ?lq (checkPalindrome ?lq [])) ''word_count'' = Some v"
      unfolding f by (simp add: check_other_keys)
    moreover have "map_of (checkPalindrome ?lq []) ''word_count'' = None"
      by (simp add: check_other_keys)
    ultimately show "v = IntVal 1 \<or> v = IntVal 2" by (rule word_count_value [rotated])
  }
  {
    fix v assume "map_of filters ''max_length'' = Some v"
    then have "map_of (checkShorterThan ?lq (checkLongerThan ?lq
        (checkWordCount ?lq (checkPalindrome ?lq [])))) ''max_length'' = Some v"
      unfolding f by (simp add: check_other_keys)
    moreover have "map_of (checkLongerThan ?lq
        (checkWordCount ?lq (checkPalindrome ?lq []))) ''max_length'' = None"
      by (simp add: check_other_keys)
    ultimately show "\<exists>ds n. ds \<noteq> [] \<and> list_all isDigit ds
              \<and> FindStringSubmatch shorterThanRegex ?lq = [''shorter than '' @ ds, ds]
              \<and> v = IntVal n \<and> - 1 \<le> n
              \<and> (decimal ds < 2 ^ 63 \<longrightarrow> n = int (decimal ds) - 1)"
      by (rule max_length_value [rotated])
  }
  {
    fix v assume "map_of filters ''min_length'' = Some v"
    then have "map_of (checkLongerThan ?lq
        (checkWordCount ?lq (checkPalindrome ?lq []))) ''min_length'' = Some v"
      unfolding f by (simp add: check_other_keys)
    moreover have "map_of (checkWordCount ?lq (checkPalindrome ?lq [])) ''min_length'' = None"
      by (simp add: check_other_keys)
    ultimately show "\<exists>ds. ds \<noteq> [] \<and> list_all isDigit ds
              \<and> FindStringSubmatch longerThanRegex ?lq = [''longer than '' @ ds, ds]
              \<and> (decimal ds \<le> 2 ^ 63 - 2 \<longrightarrow> v = IntVal (int (decimal ds) + 1))"
      by (rule min_length_value [rotated])
  }
qed


theorem translate_numeric_fields_witness:
  "parseNaturalLanguageQuery id ''two word strings longer than 5 and shorter than 0'' =
     Inr [(''word_count'', IntVal 2), (''min_length'', IntVal 6), (''max_length'', IntVal (- 1))]
   \<and> (\<exists>ds n. FindStringSubmatch shorterThanRegex
          (strings_ToLower id ''two word strings longer than 5 and shorter than 0'') =
            [''shorter than '' @ ds, ds]
        \<and> decimal ds < 2 ^ 63 \<and> IntVal (- 1) = IntVal n \<and> - 1 \<le> n \<and> n = int (decimal ds) - 1)
   \<and> (\<exists>ds. FindStringSubmatch longerThanRegex
          (strings_ToLower id ''two word strings longer than 5 and shorter than 0'') =
            [''longer than '' @ ds, ds]
        \<and> decimal ds \<le> 2 ^ 63 - 2 \<and> IntVal 6 = IntVal (int (decimal ds) + 1))"
proof -
  let ?q = "''two word strings longer than 5 and shorter than 0''"
  let ?f = "[(''word_count'', IntVal 2), (''min_length'', IntVal 6), (''max_length'', IntVal (- 1))]"
  have e: "parseNaturalLanguageQuery id ?q = Inr ?f"
    by (simp add: parse_eval split del: if_split)
  have lq: "strings_ToLower id ?q = ?q"
    by (simp add: strings_ToLower_def lowerByte_def)
  have s: "FindStringSubmatch shorterThanRegex ?q = [''shorter than 0'', ''0'']"
    by (simp add: shorterThanRegex_def thanRegex_def isDigit_def Let_def split del: if_split)
  have l: "FindStringSubmatch longerThanRegex ?q = [''longer than 5'', ''5'']"
    by (simp add: longerThanRegex_def thanRegex_def isDigit_def Let_def split del: if_split)
  have d0: "decimal ''0'' = 0" and d5: "decimal ''5'' = 5"
    by (simp_all add: decimal_def)
  note t = translate_numeric_fields [of id ?q ?f]
  have mx: "map_of ?f ''max_length'' = Some (IntVal (- 1))" by simp
  have mn: "map_of ?f ''min_length'' = Some (IntVal 6)" by simp
  from t e mx obtain ds n where
    a: "FindStringSubmatch shorterThanRegex (strings_ToLower id ?q) = [''shorter than '' @ ds, ds]"
       "IntVal (- 1) = IntVal n" "- 1 \<le> n" "decimal ds < 2 ^ 63 \<longrightarrow> n = int (decimal ds) - 1"
    by blast
  from a(1) have "ds = ''0''" unfolding lq s by simp
  with a d0 have 1: "\<exists>ds n. FindStringSubmatch shorterThanRegex (strings_ToLower id ?q) =
            [''shorter than '' @ ds, ds]
        \<and> decimal ds < 2 ^ 63 \<and> IntVal (- 1) = IntVal n \<and> - 1 \<le> n \<and> n = int (decimal ds) - 1"
    by (intro exI [of _ "''0''"] exI [of _ n]) simp
  from t e mn obtain ds' where
    b: "FindStringSubmatch longerThanRegex (strings_ToLower id ?q) = [''longer than '' @ ds', ds']"
       "decimal ds' \<le> 2 ^ 63 - 2 \<longrightarrow> IntVal 6 = IntVal (int (decimal ds') + 1)"
    by blast
  from b(1) have "ds' = ''5''" unfolding lq l by simp
  with b d5 have 2: "\<exists>ds. FindStringSubmatch longerThanRegex (strings_ToLower id ?q) =
            [''longer than '' @ ds, ds]
        \<and> decimal ds \<le> 2 ^ 63 - 2 \<and> IntVal 6 = IntVal (int (decimal ds) + 1)"
    by (intro exI [of _ "''5''"]) simp
  from e 1 2 show ?thesis by (intro conjI)
qed

text \<open>The claim as stated, that every numeric field is non-negative, fails at
  "strings shorter than 0": the translation succeeds with \<open>max_length = -1\<close>.\<close>

theorem shorter_than_zero_counterexample:
  "parseNaturalLanguageQuery id ''strings shorter than 0'' = Inr [(''max_length'', IntVal (- 1))]
   \<and> map_of [(''max_length'', IntVal (- 1))] ''max_length'' = Some (IntVal (- 1))
   \<and> (- 1 :: int) < 0"
  by (simp add: parse_eval split del: if_split)

end
